theory Spec2Isabelle
  imports Main "HOL-Library.Char_ord" "HOL-Library.List_Lexorder" "HOL-Library.Product_Lexorder"
    "HOL-Library.Multiset"
begin

section \<open>Strings\<close>

text \<open>
  A Python \<open>str\<close> is modelled as a \<open>string\<close>, one \<open>char\<close> per code point. A \<open>char\<close> holds a
  code point below 256, so the model covers text of ASCII and Latin-1 characters. On these
  \<open>str.lower\<close> maps each of \<open>A\<close>..\<open>Z\<close> (65..90) and of the accented capitals 192..214 and
  216..222 to the code point 32 above it and leaves every other character as it is; the
  white space of \<open>\s\<close> and \<open>str.strip\<close> is 9..13, 28..32, 133 (next line) and 160 (no-break
  space).
\<close>

definition lower_char :: "char \<Rightarrow> char" where
  "lower_char c =
     (let n = (of_char c :: nat)
      in if 65 \<le> n \<and> n \<le> 90 \<or> 192 \<le> n \<and> n \<le> 214 \<or> 216 \<le> n \<and> n \<le> 222
         then char_of (n + 32) else c)"

definition lower :: "string \<Rightarrow> string" where
  "lower s = map lower_char s"

text \<open>\<open>startswith s p\<close> is \<open>s.startswith(p)\<close>, \<open>endswith s p\<close> is \<open>s.endswith(p)\<close>.\<close>

fun startswith :: "string \<Rightarrow> string \<Rightarrow> bool" where
  "startswith s [] = True"
| "startswith [] (p # ps) = False"
| "startswith (c # cs) (p # ps) = (c = p \<and> startswith cs ps)"

definition endswith :: "string \<Rightarrow> string \<Rightarrow> bool" where
  "endswith s p = startswith (rev s) (rev p)"

text \<open>\<open>str_in p s\<close> is the substring test \<open>p in s\<close>.\<close>

fun str_in :: "string \<Rightarrow> string \<Rightarrow> bool" where
  "str_in p [] = (p = [])"
| "str_in p (c # cs) = (startswith (c # cs) p \<or> str_in p cs)"

definition is_space :: "char \<Rightarrow> bool" where
  "is_space c = ((of_char c :: nat) \<in> {9, 10, 11, 12, 13, 28, 29, 30, 31, 32, 133, 160})"

text \<open>\<open>re.sub(r"\s+", " ", s)\<close>: every maximal run of white space becomes one blank.\<close>

fun collapse_ws :: "string \<Rightarrow> string" where
  "collapse_ws [] = []"
| "collapse_ws (c # cs) =
     (if is_space c
      then (if cs \<noteq> [] \<and> is_space (hd cs) then collapse_ws cs
            else CHR '' '' # collapse_ws cs)
      else c # collapse_ws cs)"

definition strip :: "string \<Rightarrow> string" where
  "strip s = rev (dropWhile is_space (rev (dropWhile is_space s)))"

definition normalize_whitespace :: "string \<Rightarrow> string" where
  "normalize_whitespace s = strip (collapse_ws s)"

text \<open>\<open>sep.join(xs)\<close>.\<close>

fun join :: "string \<Rightarrow> string list \<Rightarrow> string" where
  "join sep [] = []"
| "join sep [x] = x"
| "join sep (x # y # ys) = x @ sep @ join sep (y # ys)"

section \<open>Keyword matcher\<close>

text \<open>
  The loop of \<open>match_keywords\<close>, with its two accumulators \<open>matched\<close> and \<open>score\<close>; \<open>t\<close> is the
  lower-cased text.
\<close>

fun match_loop :: "string \<Rightarrow> string list \<Rightarrow> string list \<times> int \<Rightarrow> string list \<times> int" where
  "match_loop t [] (matched, score) = (matched, score)"
| "match_loop t (kw # kws) (matched, score) =
     (if str_in (lower kw) t
      then match_loop t kws
             (matched @ [kw],
              (if lower kw = ''definitive agreement'' then score + 5
               else if lower kw \<in> set [''acquisition''] then score + 3
               else score + 2))
      else match_loop t kws (matched, score))"

definition match_keywords :: "string \<Rightarrow> string list \<Rightarrow> string list \<times> int" where
  "match_keywords text keywords = match_loop (lower text) keywords ([], 0)"

text \<open>
  Equality of texts without regard to case, stated on the characters and not through
  \<open>lower\<close>: two characters are the same letter when they are equal or one is a capital and
  the other the small letter 32 code points above it.
\<close>

definition is_upper :: "char \<Rightarrow> bool" where
  "is_upper c =
     (let n = (of_char c :: nat)
      in 65 \<le> n \<and> n \<le> 90 \<or> 192 \<le> n \<and> n \<le> 214 \<or> 216 \<le> n \<and> n \<le> 222)"

definition same_letter :: "char \<Rightarrow> char \<Rightarrow> bool" where
  "same_letter c d =
     (c = d \<or> is_upper c \<and> (of_char d :: nat) = of_char c + 32
            \<or> is_upper d \<and> (of_char c :: nat) = of_char d + 32)"

definition eq_nocase :: "string \<Rightarrow> string \<Rightarrow> bool" where
  "eq_nocase a b = list_all2 same_letter a b"

text \<open>
  The scoring rule in the words of the specification: the weight of a keyword, and whether a
  keyword occurs in a text (some stretch of the text equals it), both without regard to
  case.
\<close>

definition kw_weight :: "string \<Rightarrow> int" where
  "kw_weight kw =
     (if eq_nocase kw ''definitive agreement'' then 5
      else if eq_nocase kw ''acquisition'' then 3 else 2)"

definition kw_occurs :: "string \<Rightarrow> string \<Rightarrow> bool" where
  "kw_occurs kw text = (\<exists>a m b. text = a @ m @ b \<and> eq_nocase m kw)"

section \<open>Fetch client\<close>

text \<open>
  The exceptions the scanner meets. \<open>requests.get\<close> either raises (a transport error: no
  connection, a timeout, too many redirects) or returns a response;
  \<open>Response.raise_for_status\<close> of the requests library raises \<open>HTTPError\<close> for a status code
  from 400 to 599 and returns for every other one.
\<close>

datatype py_error =
    RequestException string
  | HTTPError nat
  | TypeError
  | AttributeError
  | IntegrityError

record response =
  status_code :: nat
  payload :: string

datatype attempt = Raises py_error | Responds response

definition raise_for_status :: "response \<Rightarrow> py_error option" where
  "raise_for_status r =
     (if 400 \<le> status_code r \<and> status_code r < 600
      then Some (HTTPError (status_code r)) else None)"

text \<open>
  The loop \<open>for _ in range(3)\<close> of \<open>safe_get\<close>. \<open>net k\<close> is what the \<open>k\<close>-th call of
  \<open>requests.get\<close> for the URL does; \<open>n\<close> counts the iterations left and \<open>k\<close> the calls made
  so far, which is returned with the result. After the loop, \<open>raise last_err\<close>; with
  \<open>last_err\<close> still \<open>None\<close> that statement would itself raise \<open>TypeError\<close>.
\<close>

fun safe_get_loop ::
  "nat \<Rightarrow> (nat \<Rightarrow> attempt) \<Rightarrow> nat \<Rightarrow> py_error option \<Rightarrow> (py_error + response) \<times> nat" where
  "safe_get_loop 0 net k last_err =
     (case last_err of Some e \<Rightarrow> (Inl e, k) | None \<Rightarrow> (Inl TypeError, k))"
| "safe_get_loop (Suc n) net k last_err =
     (case net k of
        Raises e \<Rightarrow> safe_get_loop n net (Suc k) (Some e)
      | Responds r \<Rightarrow>
          (case raise_for_status r of
             Some e \<Rightarrow> safe_get_loop n net (Suc k) (Some e)
           | None \<Rightarrow> (Inr r, Suc k)))"

definition safe_get :: "(nat \<Rightarrow> attempt) \<Rightarrow> (py_error + response) \<times> nat" where
  "safe_get net = safe_get_loop 3 net 0 None"

text \<open>
  An attempt fails when the request raises or the response has a status from 400 to 599;
  \<open>attempt_error\<close> is the exception it fails with.
\<close>

definition attempt_failed :: "attempt \<Rightarrow> bool" where
  "attempt_failed a =
     (case a of Raises e \<Rightarrow> True
      | Responds r \<Rightarrow> 400 \<le> status_code r \<and> status_code r < 600)"

definition attempt_error :: "attempt \<Rightarrow> py_error" where
  "attempt_error a = (case a of Raises e \<Rightarrow> e | Responds r \<Rightarrow> HTTPError (status_code r))"

text \<open>A server that answers every request with 304 Not Modified, one that recovers at the
  third request, and one that never does.\<close>

definition net_not_modified :: "nat \<Rightarrow> attempt" where
  "net_not_modified k = Responds \<lparr>status_code = 304, payload = []\<rparr>"

definition net_flaky :: "nat \<Rightarrow> attempt" where
  "net_flaky k =
     (if k = 0 then Raises (RequestException ''timeout'')
      else if k = 1 then Responds \<lparr>status_code = 503, payload = ''busy''\<rparr>
      else Responds \<lparr>status_code = 200, payload = ''ok''\<rparr>)"

definition net_down :: "nat \<Rightarrow> attempt" where
  "net_down k =
     (if k < 2 then Raises (RequestException ''timeout'')
      else Responds \<lparr>status_code = 500, payload = []\<rparr>)"

section \<open>Items\<close>

text \<open>
  An item is the dictionary the adapters build. The keys \<open>matched\<close> and \<open>score\<close> are absent
  (\<open>None\<close> here) until the orchestrator sets them; \<open>published_at\<close> and \<open>snippet\<close> are always
  present and may hold \<open>None\<close>.
\<close>

record Item =
  source :: string
  title :: string
  url :: string
  published_at :: "string option"
  snippet :: "string option"
  matched :: "string list option"
  score :: "int option"

definition new_item ::
  "string \<Rightarrow> string \<Rightarrow> string \<Rightarrow> string option \<Rightarrow> string option \<Rightarrow> Item" where
  "new_item src t u p sn =
     \<lparr>source = src, title = t, url = u, published_at = p, snippet = sn,
      matched = None, score = None\<rparr>"

section \<open>HTML link-list adapters\<close>

text \<open>
  An adapter fetches its page with \<open>safe_get\<close> and has it parsed by BeautifulSoup; what is
  modelled here is what it does with the parsed page, the list \<open>soup.select("a[href]")\<close>,
  each anchor given by its \<open>href\<close> and by \<open>a.get_text(" ")\<close>, in document order.
\<close>

type_synonym anchor = "string \<times> string"

definition absolute :: "string \<Rightarrow> string \<Rightarrow> string" where
  "absolute base href = (if startswith href ''http'' then href else base @ href)"

text \<open>The first loop of \<open>fetch_businesswire\<close>; \<open>items\<close> is the list built so far.\<close>

fun businesswire_links :: "anchor list \<Rightarrow> Item list \<Rightarrow> Item list" where
  "businesswire_links [] items = items"
| "businesswire_links ((href, txt) # rest) items =
     (let text = normalize_whitespace txt in
      if text = [] \<or> length text < 12 then businesswire_links rest items
      else if str_in ''/news/home/'' href
      then businesswire_links rest
             (items @ [new_item ''BusinessWire'' text
                         (absolute ''https://www.businesswire.com'' href) None None])
      else businesswire_links rest items)"

text \<open>The first loop of \<open>fetch_prnewswire\<close>.\<close>

fun prnewswire_links :: "anchor list \<Rightarrow> Item list \<Rightarrow> Item list" where
  "prnewswire_links [] items = items"
| "prnewswire_links ((href, txt) # rest) items =
     (let title = normalize_whitespace txt in
      if str_in ''/news-releases/'' href \<and> endswith href ''.html'' \<and> length title > 12
      then prnewswire_links rest
             (items @ [new_item ''PRNewswire'' title
                         (absolute ''https://www.prnewswire.com'' href) None None])
      else prnewswire_links rest items)"

text \<open>The second loop of both: de-duplication by URL, with the set \<open>seen\<close> and the list
  \<open>uniq\<close>.\<close>

fun dedupe_loop :: "Item list \<Rightarrow> string set \<Rightarrow> Item list \<Rightarrow> Item list" where
  "dedupe_loop [] seen uniq = uniq"
| "dedupe_loop (it # its) seen uniq =
     (if url it \<in> seen then dedupe_loop its seen uniq
      else dedupe_loop its (insert (url it) seen) (uniq @ [it]))"

definition fetch_businesswire :: "anchor list \<Rightarrow> Item list" where
  "fetch_businesswire anchors = take 50 (dedupe_loop (businesswire_links anchors []) {} [])"

definition fetch_prnewswire :: "anchor list \<Rightarrow> Item list" where
  "fetch_prnewswire anchors = take 60 (dedupe_loop (prnewswire_links anchors []) {} [])"

section \<open>JSON feed adapter\<close>

text \<open>
  The decoded payload of \<open>r.json()\<close>. A JSON object is an association list with distinct
  keys; numbers are integers.
\<close>

datatype json =
    JNull
  | JBool bool
  | JInt int
  | JStr string
  | JArr "json list"
  | JObj "(string \<times> json) list"

text \<open>Python's truth value of a decoded JSON value, and \<open>a or b\<close>.\<close>

fun truthy :: "json \<Rightarrow> bool" where
  "truthy JNull = False"
| "truthy (JBool b) = b"
| "truthy (JInt n) = (n \<noteq> 0)"
| "truthy (JStr s) = (s \<noteq> [])"
| "truthy (JArr xs) = (xs \<noteq> [])"
| "truthy (JObj kvs) = (kvs \<noteq> [])"

definition py_or :: "json \<Rightarrow> json \<Rightarrow> json" where
  "py_or a b = (if truthy a then a else b)"

text \<open>\<open>d.get(k)\<close> on a dictionary: \<open>None\<close> for an absent key.\<close>

definition dict_get :: "(string \<times> json) list \<Rightarrow> string \<Rightarrow> json" where
  "dict_get kvs k = (case map_of kvs k of Some v \<Rightarrow> v | None \<Rightarrow> JNull)"

text \<open>
  \<open>normalize_whitespace(v)\<close> on a decoded value: \<open>(s or "")\<close> replaces a false value by the
  empty string, and \<open>re.sub\<close> raises \<open>TypeError\<close> on a true value that is not a string.
\<close>

definition normalize_whitespace_value :: "json \<Rightarrow> py_error + string" where
  "normalize_whitespace_value v =
     (if \<not> truthy v then Inr (normalize_whitespace [])
      else case v of JStr s \<Rightarrow> Inr (normalize_whitespace s) | _ \<Rightarrow> Inl TypeError)"

text \<open>
  The values an entry's title, link, publish date and teaser are read from (the \<open>or\<close>
  chains over the spellings of the keys), and
  one iteration of the loop of \<open>fetch_globenewswire_json\<close> on the entry \<open>it\<close>: \<open>Inl e\<close> when
  an exception leaves the adapter, \<open>Inr None\<close> for \<open>continue\<close>, \<open>Inr (Some x)\<close> when \<open>x\<close> is
  appended. Two library calls are parameters: \<open>dtparse v\<close> is
  \<open>dtparser.parse(v).isoformat()\<close>, \<open>None\<close> when it raises, and \<open>py_str v\<close> is \<open>str(v)\<close> for a
  value that is not a string. \<open>str\<close> of such a value never begins with \<open>http\<close> (it begins
  with a digit, a sign, a bracket, a brace or a capital letter), so the link is prefixed.
  Without a \<open>get\<close> method (an entry that is no object) the first lookup raises
  \<open>AttributeError\<close>.
\<close>

definition entry_title :: "(string \<times> json) list \<Rightarrow> json" where
  "entry_title kvs = py_or (py_or (dict_get kvs ''Title'') (dict_get kvs ''title'')) (JStr [])"

definition entry_link :: "(string \<times> json) list \<Rightarrow> json" where
  "entry_link kvs =
     py_or (py_or (py_or (dict_get kvs ''Url'') (dict_get kvs ''url'')) (dict_get kvs ''Link''))
       (dict_get kvs ''link'')"

definition entry_published :: "(string \<times> json) list \<Rightarrow> json" where
  "entry_published kvs =
     py_or (py_or (py_or (dict_get kvs ''Published'') (dict_get kvs ''published''))
                  (dict_get kvs ''PubDate''))
       (dict_get kvs ''pubDate'')"

definition entry_teaser :: "(string \<times> json) list \<Rightarrow> json" where
  "entry_teaser kvs =
     py_or (py_or (py_or (py_or (dict_get kvs ''Teaser'') (dict_get kvs ''teaser''))
                         (dict_get kvs ''Summary''))
                  (dict_get kvs ''summary''))
       (JStr [])"

definition entry_item ::
  "(json \<Rightarrow> string option) \<Rightarrow> (json \<Rightarrow> string) \<Rightarrow> json \<Rightarrow> py_error + Item option" where
  "entry_item dtparse py_str it =
     (case it of
        JObj kvs \<Rightarrow>
          (case normalize_whitespace_value (entry_title kvs) of
             Inl e \<Rightarrow> Inl e
           | Inr ttl \<Rightarrow>
               (let link = entry_link kvs
                in if ttl = [] \<or> \<not> truthy link then Inr None
                   else
                     let published = entry_published kvs;
                         published_iso = (if truthy published then dtparse published else None);
                         full = (case link of
                                   JStr s \<Rightarrow> absolute ''https://www.globenewswire.com'' s
                                 | v \<Rightarrow> ''https://www.globenewswire.com'' @ py_str v)
                     in case normalize_whitespace_value (entry_teaser kvs) of
                          Inl e \<Rightarrow> Inl e
                        | Inr snip \<Rightarrow>
                            Inr (Some (new_item ''GlobeNewswire'' ttl full published_iso
                                         (if snip = [] then None else Some snip)))))
      | _ \<Rightarrow> Inl AttributeError)"

fun globenewswire_entries ::
  "(json \<Rightarrow> string option) \<Rightarrow> (json \<Rightarrow> string) \<Rightarrow> json list \<Rightarrow> Item list
     \<Rightarrow> py_error + Item list" where
  "globenewswire_entries dtparse py_str [] items = Inr items"
| "globenewswire_entries dtparse py_str (it # rest) items =
     (case entry_item dtparse py_str it of
        Inl e \<Rightarrow> Inl e
      | Inr None \<Rightarrow> globenewswire_entries dtparse py_str rest items
      | Inr (Some x) \<Rightarrow> globenewswire_entries dtparse py_str rest (items @ [x]))"

text \<open>
  \<open>fetch_globenewswire_json\<close> on the decoded payload. Iterating a true value that is no list
  fails: a dictionary yields its keys and a string its characters, which have no \<open>get\<close>
  (\<open>AttributeError\<close>); a number or \<open>True\<close> is not iterable (\<open>TypeError\<close>).
\<close>

definition fetch_globenewswire_json ::
  "(json \<Rightarrow> string option) \<Rightarrow> (json \<Rightarrow> string) \<Rightarrow> json \<Rightarrow> py_error + Item list" where
  "fetch_globenewswire_json dtparse py_str data =
     (let raw_items = (case data of JObj kvs \<Rightarrow> dict_get kvs ''Items'' | _ \<Rightarrow> data)
      in if \<not> truthy raw_items then Inr []
         else case raw_items of
                JArr xs \<Rightarrow>
                  (case globenewswire_entries dtparse py_str xs [] of
                     Inl e \<Rightarrow> Inl e
                   | Inr items \<Rightarrow> Inr (take 60 items))
              | JObj kvs \<Rightarrow> Inl AttributeError
              | JStr s \<Rightarrow> Inl AttributeError
              | _ \<Rightarrow> Inl TypeError)"

section \<open>Seen-item store\<close>

text \<open>
  The table \<open>items\<close> of the database, its rows in insertion order. \<open>url\<close> is the primary
  key: \<open>INSERT\<close> of a row whose \<open>url\<close> is already in the table raises \<open>IntegrityError\<close> and
  changes nothing.
\<close>

record row =
  col_url :: string
  col_source :: string
  col_title :: string
  col_published_at :: "string option"
  col_snippet :: "string option"
  col_matched :: string
  col_score :: int
  col_first_seen_at :: string

type_synonym table = "row list"

definition sql_insert :: "table \<Rightarrow> row \<Rightarrow> py_error + table" where
  "sql_insert conn r =
     (if col_url r \<in> set (map col_url conn) then Inl IntegrityError else Inr (conn @ [r]))"

text \<open>The tuple of values \<open>upsert_new\<close> binds; \<open>now\<close> is
  \<open>datetime.now(timezone.utc).isoformat()\<close>.\<close>

definition item_row :: "string \<Rightarrow> Item \<Rightarrow> row" where
  "item_row now item =
     \<lparr>col_url = url item, col_source = source item, col_title = title item,
      col_published_at = published_at item, col_snippet = snippet item,
      col_matched = join '', '' (case matched item of Some ms \<Rightarrow> ms | None \<Rightarrow> []),
      col_score = (case score item of Some n \<Rightarrow> n | None \<Rightarrow> 0),
      col_first_seen_at = now\<rparr>"

text \<open>\<open>upsert_new\<close> catches \<open>IntegrityError\<close> and nothing else.\<close>

definition upsert_new :: "table \<Rightarrow> string \<Rightarrow> Item \<Rightarrow> py_error + bool \<times> table" where
  "upsert_new conn now item =
     (case sql_insert conn (item_row now item) of
        Inr conn' \<Rightarrow> Inr (True, conn')
      | Inl IntegrityError \<Rightarrow> Inr (False, conn)
      | Inl e \<Rightarrow> Inl e)"

section \<open>Digest builder\<close>

text \<open>Decimal digits of a number, as an f-string prints an \<open>int\<close>.\<close>

fun digits :: "nat \<Rightarrow> string" where
  "digits n =
     (if n < 10 then [char_of (48 + n)] else digits (n div 10) @ [char_of (48 + n mod 10)])"

definition str_int :: "int \<Rightarrow> string" where
  "str_int i = (if i < 0 then ''-'' @ digits (nat (- i)) else digits (nat i))"

text \<open>
  \<open>xs.sort(key=key, reverse=True)\<close>: descending by key, and stable (items with equal keys
  keep their order). As in CPython, the list is reversed, sorted stably in ascending order
  and reversed again. Tuples and strings are compared lexicographically.
\<close>

definition py_sort_reverse :: "('a \<Rightarrow> 'k::linorder) \<Rightarrow> 'a list \<Rightarrow> 'a list" where
  "py_sort_reverse key xs = rev (sort_key key (rev xs))"

text \<open>The key \<open>lambda x: (x.get("score", 0), x.get("published_at") or "")\<close>.\<close>

definition digest_key :: "Item \<Rightarrow> int \<times> string" where
  "digest_key x =
     ((case score x of Some n \<Rightarrow> n | None \<Rightarrow> 0),
      (case published_at x of Some p \<Rightarrow> p | None \<Rightarrow> []))"

text \<open>The lines one item contributes after its section header, if any.\<close>

definition item_lines :: "Item \<Rightarrow> string list" where
  "item_lines it =
     (let m = join '', '' (case matched it of Some ms \<Rightarrow> ms | None \<Rightarrow> []);
          pub = (case published_at it of Some p \<Rightarrow> p | None \<Rightarrow> [])
      in [''- '' @ title it, ''  '' @ url it]
         @ (if pub \<noteq> [] then [''  Published: '' @ pub] else [])
         @ (if m \<noteq> []
            then [''  Matched: '' @ m @ '' (score ''
                    @ str_int (case score it of Some n \<Rightarrow> n | None \<Rightarrow> 0) @ '')'']
            else [])
         @ (case snippet it of
              Some sn \<Rightarrow> if sn \<noteq> [] then [''  Snippet: '' @ sn] else []
            | None \<Rightarrow> []))"

text \<open>The rendering loop of \<open>build_digest\<close>, with \<open>current_source\<close> and the \<open>lines\<close> so far.\<close>

fun render_loop :: "Item list \<Rightarrow> string option \<Rightarrow> string list \<Rightarrow> string list" where
  "render_loop [] current_source lines = lines"
| "render_loop (it # its) current_source lines =
     (if Some (source it) \<noteq> current_source
      then render_loop its (Some (source it))
             (lines @ [[], ''== '' @ source it @ '' ==''] @ item_lines it)
      else render_loop its current_source (lines @ item_lines it))"

text \<open>
  In the source file the dash of the header line is the three characters U+00E2, U+20AC and
  U+201D. Two of them lie beyond code point 255, so the three are carried as the eight bytes
  of their UTF-8 form.
  \<open>today\<close> is \<open>datetime.now().strftime('%Y-%m-%d')\<close>.
\<close>

definition header_dash :: string where
  "header_dash = [CHR 0xC3, CHR 0xA2, CHR 0xE2, CHR 0x82, CHR 0xAC, CHR 0xE2, CHR 0x80, CHR 0x9D]"

definition date_header :: "string \<Rightarrow> string" where
  "date_header today = ''Daily M&A Radar '' @ header_dash @ '' '' @ today"

text \<open>\<open>new_hits\<close> after \<open>new_hits.sort(key=..., reverse=True)\<close>.\<close>

definition sorted_hits :: "Item list \<Rightarrow> Item list" where
  "sorted_hits new_hits = py_sort_reverse digest_key new_hits"

definition digest_lines :: "string \<Rightarrow> Item list \<Rightarrow> string list" where
  "digest_lines today new_hits =
     (let lines = [date_header today, []]
      in if new_hits = [] then lines @ [''No new keyword matches today.'']
         else render_loop (sorted_hits new_hits) None lines)"

definition build_digest :: "string \<Rightarrow> Item list \<Rightarrow> string" where
  "build_digest today new_hits = join [CHR 0x0A] (digest_lines today new_hits)"

section \<open>Pipeline orchestrator\<close>

text \<open>The text matched for an item, \<open>f"{it.get('title','')} {it.get('snippet','')}"\<close>: a
  snippet that is \<open>None\<close> is printed as \<open>None\<close>.\<close>

definition item_text :: "Item \<Rightarrow> string" where
  "item_text it = title it @ '' '' @ (case snippet it of Some sn \<Rightarrow> sn | None \<Rightarrow> ''None'')"

text \<open>
  The loop of \<open>main\<close> over \<open>all_items\<close>, with the database and \<open>new_hits\<close>; \<open>clock k\<close> is the
  UTC time read in iteration \<open>k\<close>.
\<close>

fun main_loop ::
  "string list \<Rightarrow> (nat \<Rightarrow> string) \<Rightarrow> nat \<Rightarrow> Item list \<Rightarrow> table \<Rightarrow> Item list
     \<Rightarrow> py_error + table \<times> Item list" where
  "main_loop keywords clock k [] conn new_hits = Inr (conn, new_hits)"
| "main_loop keywords clock k (it # its) conn new_hits =
     (case match_keywords (item_text it) keywords of
        (m, sc) \<Rightarrow>
          if m = [] then main_loop keywords clock (Suc k) its conn new_hits
          else
            (case upsert_new conn (clock k) (it\<lparr>matched := Some m, score := Some sc\<rparr>) of
               Inl e \<Rightarrow> Inl e
             | Inr (True, conn') \<Rightarrow>
                 main_loop keywords clock (Suc k) its conn'
                   (new_hits @ [it\<lparr>matched := Some m, score := Some sc\<rparr>])
             | Inr (False, conn') \<Rightarrow> main_loop keywords clock (Suc k) its conn' new_hits))"

section \<open>Notions used to state the properties\<close>

text \<open>The first occurrences of the elements of a list, in the order of the list.\<close>

definition first_occurrences :: "'a list \<Rightarrow> 'a list" where
  "first_occurrences us = rev (remdups (rev us))"

text \<open>Which anchors each HTML adapter keeps, and the item it builds from one.\<close>

definition businesswire_keeps :: "anchor \<Rightarrow> bool" where
  "businesswire_keeps a =
     (str_in ''/news/home/'' (fst a) \<and> 12 \<le> length (normalize_whitespace (snd a)))"

definition businesswire_item :: "anchor \<Rightarrow> Item" where
  "businesswire_item a =
     new_item ''BusinessWire'' (normalize_whitespace (snd a))
       (absolute ''https://www.businesswire.com'' (fst a)) None None"

definition prnewswire_keeps :: "anchor \<Rightarrow> bool" where
  "prnewswire_keeps a =
     (str_in ''/news-releases/'' (fst a) \<and> endswith (fst a) ''.html''
      \<and> 12 < length (normalize_whitespace (snd a)))"

definition prnewswire_item :: "anchor \<Rightarrow> Item" where
  "prnewswire_item a =
     new_item ''PRNewswire'' (normalize_whitespace (snd a))
       (absolute ''https://www.prnewswire.com'' (fst a)) None None"

text \<open>The item a feed entry produces, if it produces one.\<close>

definition produced ::
  "(json \<Rightarrow> string option) \<Rightarrow> (json \<Rightarrow> string) \<Rightarrow> json \<Rightarrow> Item option" where
  "produced dtparse py_str e =
     (case entry_item dtparse py_str e of Inr (Some x) \<Rightarrow> Some x | _ \<Rightarrow> None)"

text \<open>A decoded value that \<open>normalize_whitespace\<close> accepts: a string or a false value.\<close>

definition is_text :: "json \<Rightarrow> bool" where
  "is_text v = (case v of JStr s \<Rightarrow> True | _ \<Rightarrow> \<not> truthy v)"

text \<open>
  What the table holds for a URL, and the table after a sequence of \<open>upsert_new\<close> calls,
  each given by the time it reads and its item.
\<close>

definition stored_row :: "table \<Rightarrow> string \<Rightarrow> row option" where
  "stored_row conn u = find (\<lambda>r. col_url r = u) conn"

fun upsert_seq :: "table \<Rightarrow> (string \<times> Item) list \<Rightarrow> table" where
  "upsert_seq conn [] = conn"
| "upsert_seq conn ((now, item) # calls) =
     (case upsert_new conn now item of
        Inr (b, conn') \<Rightarrow> upsert_seq conn' calls
      | Inl e \<Rightarrow> conn)"

text \<open>An item as the orchestrator annotates it once it has matched.\<close>

definition annotate :: "string list \<Rightarrow> Item \<Rightarrow> Item" where
  "annotate keywords it =
     it\<lparr>matched := Some (fst (match_keywords (item_text it) keywords)),
        score := Some (snd (match_keywords (item_text it) keywords))\<rparr>"

text \<open>The score of a hit (0 when it has none) and its publish string (empty when it has
  none), the two things the digest is ordered by.\<close>

definition hit_score :: "Item \<Rightarrow> int" where
  "hit_score x = (case score x of Some n \<Rightarrow> n | None \<Rightarrow> 0)"

definition hit_date :: "Item \<Rightarrow> string" where
  "hit_date x = (case published_at x of Some p \<Rightarrow> p | None \<Rightarrow> [])"

text \<open>
  The section header written before an item whose predecessor in the rendering has the
  source \<open>prev\<close> (\<open>None\<close> for the first item), and the lines of a whole list of items.
\<close>

definition section_header :: "string option \<Rightarrow> Item \<Rightarrow> string list" where
  "section_header prev it =
     (if prev \<noteq> Some (source it) then [[], ''== '' @ source it @ '' ==''] else [])"

definition rendered :: "Item list \<Rightarrow> string list" where
  "rendered hs =
     concat (map (\<lambda>(prev, it). section_header prev it @ item_lines it)
               (zip (None # map (\<lambda>x. Some (source x)) hs) hs))"

section \<open>Example inputs\<close>

text \<open>
  Items, a clock that always reads the same time, a date parser that rejects every value,
  \<open>str\<close> on scalars, feed entries and anchors.
\<close>

definition acme_item :: Item where
  "acme_item =
     new_item ''BusinessWire'' ''Acme to acquire Widget Co''
       ''https://www.businesswire.com/news/home/1'' None None"

definition globex_item :: Item where
  "globex_item =
     new_item ''GlobeNewswire'' ''Globex merger closes''
       ''https://www.globenewswire.com/r/2'' (Some ''2024-05-01T00:00:00'') (Some ''Done.'')"

definition quiet_item :: Item where
  "quiet_item =
     new_item ''GlobeNewswire'' ''Initech posts quarterly results''
       ''https://www.globenewswire.com/r/3'' None (Some ''Revenue up.'')"

definition fixed_clock :: "nat \<Rightarrow> string" where
  "fixed_clock k = ''2024-05-02T08:00:00+00:00''"

definition dtparse_fails :: "json \<Rightarrow> string option" where
  "dtparse_fails v = None"

definition py_str_scalar :: "json \<Rightarrow> string" where
  "py_str_scalar v =
     (case v of JInt n \<Rightarrow> str_int n | JBool b \<Rightarrow> (if b then ''True'' else ''False'')
      | JNull \<Rightarrow> ''None'' | JStr s \<Rightarrow> s | _ \<Rightarrow> [])"

definition acme_entry :: json where
  "acme_entry = JObj [(''Title'', JStr ''Acme to acquire Widget Co''), (''Url'', JStr ''/r/1'')]"

definition unlinked_entry :: json where
  "unlinked_entry = JObj [(''title'', JStr ''Initech results''), (''link'', JNull)]"

definition acme_anchors :: "anchor list" where
  "acme_anchors =
     [(''/news/home/1'', ''  Acme to acquire   Widget Co ''),
      (''/about'', ''About this newsroom''),
      (''/news/home/1'', ''Read the full release''),
      (''https://www.businesswire.com/news/home/2'', ''Initech results'')]"

text \<open>Four new hits: three with the score 2, of which the first has no date, and one with
  the score 5.\<close>

definition tied_hits :: "Item list" where
  "tied_hits =
     [(new_item ''A'' ''Undated deal'' ''https://a.example/1'' None None)
        \<lparr>matched := Some [''merger''], score := Some 2\<rparr>,
      (new_item ''A'' ''Older deal'' ''https://a.example/2'' (Some ''2024-05-01'') None)
        \<lparr>matched := Some [''merger''], score := Some 2\<rparr>,
      (new_item ''B'' ''Newer deal'' ''https://b.example/3'' (Some ''2024-05-03'') (Some ''Soon.''))
        \<lparr>matched := Some [''takeover''], score := Some 2\<rparr>,
      (new_item ''A'' ''Big deal'' ''https://a.example/4'' None None)
        \<lparr>matched := Some [''definitive agreement''], score := Some 5\<rparr>]"

section \<open>Properties of the string operations\<close>

lemma startswith_iff: "startswith s p \<longleftrightarrow> (\<exists>b. s = p @ b)"
  by (induction s p rule: startswith.induct) auto

lemma str_in_iff: "str_in p s \<longleftrightarrow> (\<exists>a b. s = a @ p @ b)"
proof (induction s)
  case Nil
  show ?case by simp
next
  case (Cons c cs)
  show ?case
  proof
    assume "str_in p (c # cs)"
    then consider "startswith (c # cs) p" | "str_in p cs" by auto
    then show "\<exists>a b. c # cs = a @ p @ b"
    proof cases
      case 1
      then obtain b where "c # cs = p @ b" by (auto simp: startswith_iff)
      then have "c # cs = [] @ p @ b" by simp
      then show ?thesis by blast
    next
      case 2
      then obtain a b where "cs = a @ p @ b" using Cons.IH by blast
      then have "c # cs = (c # a) @ p @ b" by simp
      then show ?thesis by blast
    qed
  next
    assume "\<exists>a b. c # cs = a @ p @ b"
    then obtain a b where ab: "c # cs = a @ p @ b" by blast
    show "str_in p (c # cs)"
    proof (cases a)
      case Nil
      with ab have "startswith (c # cs) p" by (auto simp: startswith_iff)
      then show ?thesis by simp
    next
      case (Cons d ds)
      with ab have "cs = ds @ p @ b" by simp
      then have "str_in p cs" using Cons.IH by blast
      then show ?thesis by simp
    qed
  qed
qed

lemma lower_append: "lower (a @ b) = lower a @ lower b"
  by (simp add: lower_def)

section \<open>Properties of the keyword matcher\<close>

lemma lower_char_eq_iff: "lower_char c = lower_char d \<longleftrightarrow> same_letter c d"
proof -
  have c: "(of_char c :: nat) < 256" and d: "(of_char d :: nat) < 256"
    by simp_all
  have inj: "c = d \<longleftrightarrow> (of_char c :: nat) = of_char d" by simp
  have code: "(of_char (lower_char x) :: nat)
      = (if is_upper x then of_char x + 32 else of_char x)" for x
    by (auto simp: lower_char_def is_upper_def Let_def)
  have "lower_char c = lower_char d
      \<longleftrightarrow> (of_char (lower_char c) :: nat) = of_char (lower_char d)"
    by simp
  also have "\<dots> \<longleftrightarrow> same_letter c d"
    unfolding code same_letter_def inj
    using c d by (auto simp: is_upper_def Let_def)
  finally show ?thesis .
qed

lemma lower_eq_iff: "lower a = lower b \<longleftrightarrow> eq_nocase a b"
  unfolding lower_def eq_nocase_def
proof (induction a arbitrary: b)
  case Nil
  show ?case by auto
next
  case (Cons x a)
  show ?case by (cases b) (auto simp: Cons.IH lower_char_eq_iff)
qed

lemma lower_literals:
  "lower ''definitive agreement'' = ''definitive agreement''"
  "lower ''acquisition'' = ''acquisition''"
  by code_simp+

lemma kw_weight_lower:
  "kw_weight kw =
     (if lower kw = ''definitive agreement'' then 5
      else if lower kw = ''acquisition'' then 3 else 2)"
  using lower_eq_iff [of kw "''definitive agreement''"] lower_eq_iff [of kw "''acquisition''"]
  by (simp add: kw_weight_def lower_literals)

lemma kw_occurs_lower: "kw_occurs kw text \<longleftrightarrow> str_in (lower kw) (lower text)"
proof
  assume "kw_occurs kw text"
  then obtain a m b where "text = a @ m @ b" and "eq_nocase m kw"
    unfolding kw_occurs_def by blast
  then have "lower text = lower a @ lower kw @ lower b"
    by (simp add: lower_append lower_eq_iff [symmetric])
  then show "str_in (lower kw) (lower text)"
    unfolding str_in_iff by blast
next
  assume "str_in (lower kw) (lower text)"
  then obtain a' b' where "map lower_char text = a' @ lower kw @ b'"
    unfolding str_in_iff lower_def by blast
  then obtain a r where t1: "text = a @ r" and "map lower_char r = lower kw @ b'"
    by (metis map_eq_append_conv)
  then obtain m b where t2: "r = m @ b" and "map lower_char m = lower kw"
    by (metis map_eq_append_conv)
  then have "eq_nocase m kw" by (simp add: lower_eq_iff [symmetric] lower_def)
  with t1 t2 show "kw_occurs kw text"
    unfolding kw_occurs_def by blast
qed

lemma match_loop_eq:
  "match_loop t kws (m, s) =
     (m @ filter (\<lambda>kw. str_in (lower kw) t) kws,
      s + sum_list (map kw_weight (filter (\<lambda>kw. str_in (lower kw) t) kws)))"
  by (induction kws arbitrary: m s) (auto simp: kw_weight_lower)

text \<open>
  C2: for every text and keyword list, \<open>match_keywords\<close> returns the keywords of the list that
  occur in the text without regard to case, in the order of the list, and a score that is the
  sum of their weights: 5 for "definitive agreement", 3 for "acquisition", 2 for any other,
  the two names too compared without regard to case; an entry of the list contributes once
  however often it occurs in the text. The result is a function of the two inputs alone.
\<close>

theorem match_keywords_weighted_sum:
  "match_keywords text keywords =
     (filter (\<lambda>kw. kw_occurs kw text) keywords,
      sum_list (map kw_weight (filter (\<lambda>kw. kw_occurs kw text) keywords)))"
  by (simp add: match_keywords_def match_loop_eq kw_occurs_lower)

theorem match_keywords_weighted_sum_witness:
  "match_keywords ''ACME signs Definitive AGREEMENT on acquisition, Acquisition''
       [''definitive agreement'', ''ACQUISITION'', ''merger'', ''Acme'']
     = ([''definitive agreement'', ''ACQUISITION'', ''Acme''], 10)
   \<and> filter (\<lambda>kw. kw_occurs kw ''ACME signs Definitive AGREEMENT on acquisition, Acquisition'')
       [''definitive agreement'', ''ACQUISITION'', ''merger'', ''Acme'']
     = [''definitive agreement'', ''ACQUISITION'', ''Acme'']
   \<and> match_keywords [CHR ''t'', CHR 0xE9, CHR ''l'', CHR 0xE9] [[CHR 0xC9, CHR ''L'']]
     = ([[CHR 0xC9, CHR ''L'']], 2)
   \<and> kw_weight ''Definitive Agreement'' = 5 \<and> kw_weight ''AcquisitioN'' = 3"
proof -
  have a: "match_keywords ''ACME signs Definitive AGREEMENT on acquisition, Acquisition''
       [''definitive agreement'', ''ACQUISITION'', ''merger'', ''Acme'']
     = ([''definitive agreement'', ''ACQUISITION'', ''Acme''], 10)"
    by code_simp
  have b: "match_keywords [CHR ''t'', CHR 0xE9, CHR ''l'', CHR 0xE9] [[CHR 0xC9, CHR ''L'']]
     = ([[CHR 0xC9, CHR ''L'']], 2)"
    by code_simp
  have w: "kw_weight ''Definitive Agreement'' = 5 \<and> kw_weight ''AcquisitioN'' = 3"
    unfolding kw_weight_lower by code_simp
  from a match_keywords_weighted_sum
    [of "''ACME signs Definitive AGREEMENT on acquisition, Acquisition''"
        "[''definitive agreement'', ''ACQUISITION'', ''merger'', ''Acme'']"]
  have "filter (\<lambda>kw. kw_occurs kw ''ACME signs Definitive AGREEMENT on acquisition, Acquisition'')
       [''definitive agreement'', ''ACQUISITION'', ''merger'', ''Acme'']
     = [''definitive agreement'', ''ACQUISITION'', ''Acme'']"
    by simp
  with a b w show ?thesis by blast
qed

section \<open>Properties of the fetch client\<close>

lemma safe_get_cases:
  "safe_get net =
     (if \<not> attempt_failed (net 0) then (Inr (case net 0 of Responds r \<Rightarrow> r), 1)
      else if \<not> attempt_failed (net 1) then (Inr (case net 1 of Responds r \<Rightarrow> r), 2)
      else if \<not> attempt_failed (net 2) then (Inr (case net 2 of Responds r \<Rightarrow> r), 3)
      else (Inl (attempt_error (net 2)), 3))"
  by (simp add: safe_get_def numeral_3_eq_3 attempt_failed_def attempt_error_def
      raise_for_status_def numeral_2_eq_2 split: attempt.splits)

text \<open>
  C7, as the code has it: \<open>safe_get\<close> makes at most 3 requests. An attempt fails when the
  request raises or \<open>raise_for_status\<close> raises, which it does for a status from 400 to 599
  (not for every status outside 200..299). The response of the first attempt that does not
  fail is returned, after that many requests; when all three fail, the error of the third
  is raised.
\<close>

theorem safe_get_retry_policy:
  "snd (safe_get net) \<le> 3
   \<and> (\<forall>k r. k < 3 \<and> (\<forall>j<k. attempt_failed (net j)) \<and> net k = Responds r
             \<and> \<not> (400 \<le> status_code r \<and> status_code r < 600)
          \<longrightarrow> safe_get net = (Inr r, Suc k))
   \<and> (attempt_failed (net 0) \<and> attempt_failed (net 1) \<and> attempt_failed (net 2)
          \<longrightarrow> safe_get net = (Inl (attempt_error (net 2)), 3))"
proof (intro conjI allI impI)
  show "snd (safe_get net) \<le> 3"
    by (simp add: safe_get_cases)
next
  fix k r
  assume a: "k < 3 \<and> (\<forall>j<k. attempt_failed (net j)) \<and> net k = Responds r
             \<and> \<not> (400 \<le> status_code r \<and> status_code r < 600)"
  then have ok: "\<not> attempt_failed (net k)" and r: "net k = Responds r"
    by (simp_all add: attempt_failed_def)
  from a consider "k = 0" | "k = 1" | "k = 2" by linarith
  then show "safe_get net = (Inr r, Suc k)"
  proof cases
    case 1
    with ok r show ?thesis by (simp add: safe_get_cases)
  next
    case 2
    with a have "attempt_failed (net 0)" by simp
    with 2 ok r show ?thesis by (simp add: safe_get_cases)
  next
    case 3
    with a have "attempt_failed (net 0)" "attempt_failed (net 1)" by simp_all
    with 3 ok r show ?thesis by (simp add: safe_get_cases)
  qed
next
  assume "attempt_failed (net 0) \<and> attempt_failed (net 1) \<and> attempt_failed (net 2)"
  then show "safe_get net = (Inl (attempt_error (net 2)), 3)"
    by (simp add: safe_get_cases)
qed

theorem safe_get_retry_policy_witness:
  "safe_get net_flaky = (Inr \<lparr>status_code = 200, payload = ''ok''\<rparr>, 3)
   \<and> safe_get net_down = (Inl (HTTPError 500), 3)"
proof
  have "2 < (3::nat) \<and> (\<forall>j<2. attempt_failed (net_flaky j))
        \<and> net_flaky 2 = Responds \<lparr>status_code = 200, payload = ''ok''\<rparr>
        \<and> \<not> (400 \<le> status_code \<lparr>status_code = 200, payload = ''ok''\<rparr>
              \<and> status_code \<lparr>status_code = 200, payload = ''ok''\<rparr> < 600)"
    by (auto simp: net_flaky_def attempt_failed_def less_Suc_eq numeral_2_eq_2)
  with safe_get_retry_policy [of net_flaky]
  have "safe_get net_flaky = (Inr \<lparr>status_code = 200, payload = ''ok''\<rparr>, Suc 2)"
    by blast
  then show "safe_get net_flaky = (Inr \<lparr>status_code = 200, payload = ''ok''\<rparr>, 3)"
    by (simp add: numeral_3_eq_3 numeral_2_eq_2)
next
  have "attempt_failed (net_down 0) \<and> attempt_failed (net_down 1) \<and> attempt_failed (net_down 2)"
    by (simp add: net_down_def attempt_failed_def)
  with safe_get_retry_policy [of net_down]
  have "safe_get net_down = (Inl (attempt_error (net_down 2)), 3)" by blast
  then show "safe_get net_down = (Inl (HTTPError 500), 3)"
    by (simp add: net_down_def attempt_error_def)
qed

text \<open>
  A response with status 304 is not a 2xx response, yet the first attempt that receives it
  counts as successful: it is returned after one request.
\<close>

theorem safe_get_non_2xx_counterexample:
  "\<not> (200 \<le> status_code \<lparr>status_code = 304, payload = []\<rparr>
       \<and> status_code \<lparr>status_code = 304, payload = []\<rparr> < 300)
   \<and> net_not_modified 0 = Responds \<lparr>status_code = 304, payload = []\<rparr>
   \<and> safe_get net_not_modified = (Inr \<lparr>status_code = 304, payload = []\<rparr>, 1)"
  by (simp add: safe_get_def net_not_modified_def raise_for_status_def numeral_3_eq_3)

section \<open>Properties of the store\<close>

lemma find_append_None: "find P xs = None \<Longrightarrow> find P (xs @ ys) = find P ys"
  by (induction xs) (auto split: if_splits)

lemma upsert_new_eq:
  "upsert_new conn now item =
     Inr (if url item \<in> set (map col_url conn) then (False, conn)
          else (True, conn @ [item_row now item]))"
  by (simp add: upsert_new_def sql_insert_def item_row_def)

lemma upsert_seq_extends:
  "\<exists>ext. upsert_seq conn calls = conn @ ext \<and> (\<forall>r \<in> set ext. col_url r \<notin> set (map col_url conn))"
proof (induction calls arbitrary: conn)
  case Nil
  show ?case by simp
next
  case (Cons c calls)
  obtain now item where c: "c = (now, item)" by (cases c)
  show ?case
  proof (cases "url item \<in> set (map col_url conn)")
    case True
    then have "upsert_seq conn (c # calls) = upsert_seq conn calls"
      by (simp add: c upsert_new_eq)
    with Cons.IH [of conn] show ?thesis by simp
  next
    case False
    then have eq: "upsert_seq conn (c # calls) = upsert_seq (conn @ [item_row now item]) calls"
      by (simp add: c upsert_new_eq)
    from Cons.IH [of "conn @ [item_row now item]"] obtain ext where
      ext: "upsert_seq (conn @ [item_row now item]) calls = (conn @ [item_row now item]) @ ext"
        "\<forall>r \<in> set ext. col_url r \<notin> set (map col_url (conn @ [item_row now item]))"
      by blast
    from False have "col_url (item_row now item) \<notin> set (map col_url conn)"
      by (simp add: item_row_def)
    with ext eq have "upsert_seq conn (c # calls) = conn @ (item_row now item # ext)
        \<and> (\<forall>r \<in> set (item_row now item # ext). col_url r \<notin> set (map col_url conn))"
      by auto
    then show ?thesis by blast
  qed
qed

text \<open>
  C4: \<open>upsert_new\<close> is idempotent per URL. The first insert of a URL that is not in the table
  returns \<open>True\<close> and appends exactly one row. After it, and after any further calls of
  \<open>upsert_new\<close>, an insert of an item with the same URL raises nothing, returns \<open>False\<close> and
  leaves the table as it is; the table holds one row for the URL, the row of the first insert.
\<close>

theorem upsert_new_idempotent:
  assumes "url item \<notin> set (map col_url conn)"
  shows "upsert_new conn now item = Inr (True, conn @ [item_row now item])
     \<and> (\<forall>calls now' (item'::Item). url item' = url item \<longrightarrow>
          upsert_new (upsert_seq (conn @ [item_row now item]) calls) now' item'
            = Inr (False, upsert_seq (conn @ [item_row now item]) calls)
          \<and> stored_row (upsert_seq (conn @ [item_row now item]) calls) (url item)
            = Some (item_row now item)
          \<and> length (filter (\<lambda>r. col_url r = url item)
                       (upsert_seq (conn @ [item_row now item]) calls)) = 1)"
proof (intro conjI allI impI)
  from assms show "upsert_new conn now item = Inr (True, conn @ [item_row now item])"
    by (simp add: upsert_new_eq)
next
  fix calls now' and item' :: Item
  assume same: "url item' = url item"
  let ?c1 = "conn @ [item_row now item]"
  obtain ext where ext: "upsert_seq ?c1 calls = ?c1 @ ext"
    "\<forall>r \<in> set ext. col_url r \<notin> set (map col_url ?c1)"
    using upsert_seq_extends [of ?c1 calls] by blast
  have u: "col_url (item_row now item) = url item" by (simp add: item_row_def)
  from ext u have noext: "\<forall>r \<in> set ext. col_url r \<noteq> url item" by auto
  from assms have noconn: "\<forall>r \<in> set conn. col_url r \<noteq> url item"
    by (force simp: image_iff)
  from ext u same
  show "upsert_new (upsert_seq ?c1 calls) now' item' = Inr (False, upsert_seq ?c1 calls)"
    by (simp add: upsert_new_eq)
  from noconn have "find (\<lambda>r. col_url r = url item) conn = None"
    by (simp add: find_None_iff)
  then have "find (\<lambda>r. col_url r = url item) (conn @ item_row now item # ext)
      = Some (item_row now item)"
    using u by (simp add: find_append_None)
  with ext show "stored_row (upsert_seq ?c1 calls) (url item) = Some (item_row now item)"
    by (simp add: stored_row_def)
  from noconn have f1: "filter (\<lambda>r. col_url r = url item) conn = []"
    by (simp add: filter_empty_conv)
  from noext have f2: "filter (\<lambda>r. col_url r = url item) ext = []"
    by (simp add: filter_empty_conv)
  from ext f1 f2 u
  show "length (filter (\<lambda>r. col_url r = url item) (upsert_seq ?c1 calls)) = 1"
    by simp
qed

theorem upsert_new_idempotent_witness:
  "upsert_new [] ''t0'' acme_item = Inr (True, [] @ [item_row ''t0'' acme_item])
   \<and> upsert_new (upsert_seq ([] @ [item_row ''t0'' acme_item]) [(''t1'', globex_item)])
        ''t2'' (acme_item\<lparr>title := ''Acme again''\<rparr>)
      = Inr (False, upsert_seq ([] @ [item_row ''t0'' acme_item]) [(''t1'', globex_item)])
   \<and> stored_row (upsert_seq ([] @ [item_row ''t0'' acme_item]) [(''t1'', globex_item)])
        (url acme_item)
      = Some (item_row ''t0'' acme_item)"
proof -
  have h: "url acme_item \<notin> set (map col_url [])" by simp
  have same: "url (acme_item\<lparr>title := ''Acme again''\<rparr>) = url acme_item" by simp
  from upsert_new_idempotent [OF h, of "''t0''"] same show ?thesis by blast
qed

section \<open>Properties of the adapters\<close>

lemma businesswire_links_eq:
  "businesswire_links anchors items
     = items @ map businesswire_item (filter businesswire_keeps anchors)"
proof (induction anchors arbitrary: items)
  case Nil
  show ?case by simp
next
  case (Cons a anchors)
  obtain h t where a: "a = (h, t)" by (cases a)
  show ?case
    unfolding a by (auto simp: Cons.IH Let_def businesswire_keeps_def businesswire_item_def)
qed

lemma prnewswire_links_eq:
  "prnewswire_links anchors items
     = items @ map prnewswire_item (filter prnewswire_keeps anchors)"
proof (induction anchors arbitrary: items)
  case Nil
  show ?case by simp
next
  case (Cons a anchors)
  obtain h t where a: "a = (h, t)" by (cases a)
  show ?case
    unfolding a by (auto simp: Cons.IH Let_def prnewswire_keeps_def prnewswire_item_def)
qed

lemma dedupe_loop_acc: "dedupe_loop xs seen (u @ v) = u @ dedupe_loop xs seen v"
  by (induction xs arbitrary: seen v) auto

lemma dedupe_loop_Cons:
  "dedupe_loop (x # xs) seen [] =
     (if url x \<in> seen then dedupe_loop xs seen []
      else x # dedupe_loop xs (insert (url x) seen) [])"
  using dedupe_loop_acc [of xs "insert (url x) seen" "[x]" "[]"] by simp

lemma first_occurrences_Nil: "first_occurrences [] = []"
  by (simp add: first_occurrences_def)

lemma remdups_snoc: "remdups (xs @ [u]) = filter (\<lambda>v. v \<noteq> u) (remdups xs) @ [u]"
  by (induction xs) auto

lemma first_occurrences_Cons:
  "first_occurrences (u # us) = u # first_occurrences (filter (\<lambda>v. v \<noteq> u) us)"
  by (simp add: first_occurrences_def remdups_snoc rev_filter remdups_filter)

lemma dedupe_loop_urls:
  "map url (dedupe_loop xs seen [])
     = first_occurrences (filter (\<lambda>u. u \<notin> seen) (map url xs))"
proof (induction xs arbitrary: seen)
  case Nil
  show ?case by (simp add: first_occurrences_Nil)
next
  case (Cons x xs)
  have "filter (\<lambda>v. v \<noteq> url x) (filter (\<lambda>u. u \<notin> seen) (map url xs))
        = filter (\<lambda>u. u \<notin> insert (url x) seen) (map url xs)"
    by (auto intro: filter_cong)
  then show ?case
    by (simp add: dedupe_loop_Cons first_occurrences_Cons Cons.IH del: dedupe_loop.simps)
qed

lemma dedupe_loop_find:
  "it \<in> set (dedupe_loop xs seen []) \<Longrightarrow> find (\<lambda>x. url x = url it) xs = Some it"
proof (induction xs arbitrary: seen)
  case Nil
  then show ?case by simp
next
  case (Cons x xs)
  show ?case
  proof (cases "url x \<in> seen")
    case True
    with Cons.prems have m: "it \<in> set (dedupe_loop xs seen [])"
      by (simp add: dedupe_loop_Cons del: dedupe_loop.simps)
    then have "url it \<in> set (map url (dedupe_loop xs seen []))" by simp
    then have "url it \<notin> seen" by (simp add: dedupe_loop_urls first_occurrences_def)
    with True have "url x \<noteq> url it" by auto
    with Cons.IH [OF m] show ?thesis by simp
  next
    case False
    with Cons.prems consider "it = x" | "it \<in> set (dedupe_loop xs (insert (url x) seen) [])"
      by (auto simp: dedupe_loop_Cons simp del: dedupe_loop.simps)
    then show ?thesis
    proof cases
      case 1
      then show ?thesis by simp
    next
      case 2
      then have "url it \<in> set (map url (dedupe_loop xs (insert (url x) seen) []))" by simp
      then have "url it \<noteq> url x" by (auto simp: dedupe_loop_urls first_occurrences_def)
      with Cons.IH [OF 2] show ?thesis by auto
    qed
  qed
qed

lemma distinct_first_occurrences: "distinct (first_occurrences us)"
  by (simp add: first_occurrences_def)

lemma set_first_occurrences: "set (first_occurrences us) = set us"
  by (simp add: first_occurrences_def)

lemma length_first_occurrences: "length (first_occurrences us) = card (set us)"
  using distinct_card [OF distinct_first_occurrences, of us]
  by (simp add: set_first_occurrences)

lemma capped_dedupe:
  assumes "res = take cap (dedupe_loop cands {} [])"
  shows "map url res = take cap (first_occurrences (map url cands))"
    and "distinct (map url res)"
    and "length res = min cap (card (url ` set cands))"
    and "\<forall>it \<in> set res. find (\<lambda>x. url x = url it) cands = Some it"
proof -
  have u: "map url (dedupe_loop cands {} []) = first_occurrences (map url cands)"
    by (simp add: dedupe_loop_urls)
  show m: "map url res = take cap (first_occurrences (map url cands))"
    unfolding assms u [symmetric] by (simp add: take_map)
  show "distinct (map url res)"
    unfolding m by (simp add: distinct_first_occurrences)
  have "length res = length (map url res)" by simp
  also have "\<dots> = min cap (card (url ` set cands))"
    unfolding m by (simp add: length_first_occurrences min.commute)
  finally show "length res = min cap (card (url ` set cands))" .
  show "\<forall>it \<in> set res. find (\<lambda>x. url x = url it) cands = Some it"
    using assms dedupe_loop_find [of _ cands "{}"] by (auto dest: in_set_takeD)
qed


lemma globenewswire_entries_eq:
  "globenewswire_entries dtparse py_str xs items = Inr r
     \<Longrightarrow> r = items @ List.map_filter (produced dtparse py_str) xs"
proof (induction xs arbitrary: items)
  case Nil
  then show ?case by simp
next
  case (Cons e xs)
  show ?case
  proof (cases "entry_item dtparse py_str e")
    case (Inl err)
    with Cons.prems show ?thesis by simp
  next
    case (Inr opt)
    show ?thesis
    proof (cases opt)
      case None
      with Inr Cons.prems have "globenewswire_entries dtparse py_str xs items = Inr r" by simp
      from Cons.IH [OF this] Inr None show ?thesis
        by (simp add: produced_def)
    next
      case (Some x)
      with Inr Cons.prems have "globenewswire_entries dtparse py_str xs (items @ [x]) = Inr r"
        by simp
      from Cons.IH [OF this] Inr Some show ?thesis
        by (simp add: produced_def)
    qed
  qed
qed

lemma fetch_globenewswire_json_list:
  assumes "(case data of JObj kvs \<Rightarrow> dict_get kvs ''Items'' | _ \<Rightarrow> data) = JArr xs"
    and "fetch_globenewswire_json dtparse py_str data = Inr items"
  shows "items = take 60 (List.map_filter (produced dtparse py_str) xs)"
proof (cases "xs = []")
  case True
  with assms show ?thesis
    by (simp add: fetch_globenewswire_json_def)
next
  case False
  with assms obtain r where r: "globenewswire_entries dtparse py_str xs [] = Inr r"
    and "items = take 60 r"
    by (auto simp: fetch_globenewswire_json_def split: sum.splits)
  with globenewswire_entries_eq [OF r] show ?thesis by simp
qed


text \<open>
  C1, as the code has it. Each HTML adapter returns, of the candidate items it collects, the
  first with each URL, in the order of the page, cut to its cap (50 for BusinessWire, 60
  for PRNewswire): the URLs are pairwise distinct and their number is the smaller of the cap
  and the number of distinct candidate URLs. The JSON adapter removes no duplicates: from
  a list payload it returns the first 60 items its entries produce, in feed order.
\<close>

theorem adapters_bounded_lists:
  "map url (fetch_businesswire anchors)
     = take 50 (first_occurrences (map url (businesswire_links anchors [])))
   \<and> distinct (map url (fetch_businesswire anchors))
   \<and> length (fetch_businesswire anchors)
       = min 50 (card (url ` set (businesswire_links anchors [])))
   \<and> (\<forall>it \<in> set (fetch_businesswire anchors).
         find (\<lambda>x. url x = url it) (businesswire_links anchors []) = Some it)
   \<and> map url (fetch_prnewswire anchors)
       = take 60 (first_occurrences (map url (prnewswire_links anchors [])))
   \<and> distinct (map url (fetch_prnewswire anchors))
   \<and> length (fetch_prnewswire anchors)
       = min 60 (card (url ` set (prnewswire_links anchors [])))
   \<and> (\<forall>it \<in> set (fetch_prnewswire anchors).
         find (\<lambda>x. url x = url it) (prnewswire_links anchors []) = Some it)
   \<and> ((case data of JObj kvs \<Rightarrow> dict_get kvs ''Items'' | _ \<Rightarrow> data) = JArr xs
        \<and> fetch_globenewswire_json dtparse py_str data = Inr items
        \<longrightarrow> items = take 60 (List.map_filter (produced dtparse py_str) xs)
            \<and> length items \<le> 60)"
proof -
  note bw = capped_dedupe [OF fetch_businesswire_def [of anchors]]
  note pr = capped_dedupe [OF fetch_prnewswire_def [of anchors]]
  have js: "items = take 60 (List.map_filter (produced dtparse py_str) xs) \<and> length items \<le> 60"
    if "(case data of JObj kvs \<Rightarrow> dict_get kvs ''Items'' | _ \<Rightarrow> data) = JArr xs"
      and "fetch_globenewswire_json dtparse py_str data = Inr items"
    using fetch_globenewswire_json_list [OF that] by simp
  from bw pr js show ?thesis by blast
qed

theorem adapters_bounded_lists_witness:
  "map url (fetch_businesswire acme_anchors)
     = [''https://www.businesswire.com/news/home/1'',
        ''https://www.businesswire.com/news/home/2'']
   \<and> find (\<lambda>x. url x = ''https://www.businesswire.com/news/home/1'')
         (businesswire_links acme_anchors [])
       = Some (new_item ''BusinessWire'' ''Acme to acquire Widget Co''
                 ''https://www.businesswire.com/news/home/1'' None None)
   \<and> fetch_globenewswire_json dtparse_fails py_str_scalar (JArr [unlinked_entry, acme_entry])
       = Inr (take 60 (List.map_filter (produced dtparse_fails py_str_scalar)
                         [unlinked_entry, acme_entry]))"
proof -
  let ?it = "new_item ''BusinessWire'' ''Acme to acquire Widget Co''
               ''https://www.businesswire.com/news/home/1'' None None"
  have links: "businesswire_links acme_anchors []
      = [?it,
         new_item ''BusinessWire'' ''Read the full release''
           ''https://www.businesswire.com/news/home/1'' None None,
         new_item ''BusinessWire'' ''Initech results''
           ''https://www.businesswire.com/news/home/2'' None None]"
    by code_simp
  have res: "fetch_businesswire acme_anchors
      = [?it,
         new_item ''BusinessWire'' ''Initech results''
           ''https://www.businesswire.com/news/home/2'' None None]"
    by code_simp
  have feed: "fetch_globenewswire_json dtparse_fails py_str_scalar (JArr [unlinked_entry, acme_entry])
      = Inr [new_item ''GlobeNewswire'' ''Acme to acquire Widget Co''
               ''https://www.globenewswire.com/r/1'' None None]"
    by code_simp
  have arr: "(case JArr [unlinked_entry, acme_entry] of
               JObj kvs \<Rightarrow> dict_get kvs ''Items'' | _ \<Rightarrow> JArr [unlinked_entry, acme_entry])
             = JArr [unlinked_entry, acme_entry]"
    by simp
  note t = adapters_bounded_lists [of acme_anchors "JArr [unlinked_entry, acme_entry]"
      "[unlinked_entry, acme_entry]" dtparse_fails py_str_scalar
      "[new_item ''GlobeNewswire'' ''Acme to acquire Widget Co''
               ''https://www.globenewswire.com/r/1'' None None]"]
  have m: "?it \<in> set (fetch_businesswire acme_anchors)" by (simp add: res)
  have u: "url ?it = ''https://www.businesswire.com/news/home/1''" by (simp add: new_item_def)
  from t m have "find (\<lambda>x. url x = url ?it) (businesswire_links acme_anchors []) = Some ?it"
    by blast
  moreover have "map url (fetch_businesswire acme_anchors)
     = [''https://www.businesswire.com/news/home/1'',
        ''https://www.businesswire.com/news/home/2'']"
    by (simp add: res new_item_def)
  moreover from t arr feed
  have "[new_item ''GlobeNewswire'' ''Acme to acquire Widget Co''
               ''https://www.globenewswire.com/r/1'' None None]
        = take 60 (List.map_filter (produced dtparse_fails py_str_scalar)
                         [unlinked_entry, acme_entry])"
    by blast
  ultimately show ?thesis using u feed by simp
qed

text \<open>
  A feed that lists the same entry twice: the JSON adapter returns two items with the same
  URL.
\<close>

theorem json_feed_duplicate_urls_counterexample:
  "fetch_globenewswire_json dtparse_fails py_str_scalar (JArr [acme_entry, acme_entry])
     = Inr [new_item ''GlobeNewswire'' ''Acme to acquire Widget Co''
              ''https://www.globenewswire.com/r/1'' None None,
            new_item ''GlobeNewswire'' ''Acme to acquire Widget Co''
              ''https://www.globenewswire.com/r/1'' None None]
   \<and> \<not> distinct (map url
          [new_item ''GlobeNewswire'' ''Acme to acquire Widget Co''
              ''https://www.globenewswire.com/r/1'' None None,
           new_item ''GlobeNewswire'' ''Acme to acquire Widget Co''
              ''https://www.globenewswire.com/r/1'' None None])"
proof
  show "fetch_globenewswire_json dtparse_fails py_str_scalar (JArr [acme_entry, acme_entry])
     = Inr [new_item ''GlobeNewswire'' ''Acme to acquire Widget Co''
              ''https://www.globenewswire.com/r/1'' None None,
            new_item ''GlobeNewswire'' ''Acme to acquire Widget Co''
              ''https://www.globenewswire.com/r/1'' None None]"
    by code_simp
  show "\<not> distinct (map url
          [new_item ''GlobeNewswire'' ''Acme to acquire Widget Co''
              ''https://www.globenewswire.com/r/1'' None None,
           new_item ''GlobeNewswire'' ''Acme to acquire Widget Co''
              ''https://www.globenewswire.com/r/1'' None None])"
    by simp
qed

text \<open>
  C3 at the boundary. An anchor whose normalized text has exactly 12 characters and whose
  link has the marker of its source: \<open>fetch_businesswire\<close> keeps it, \<open>fetch_prnewswire\<close>,
  which asks for more than 12 characters, drops it.
\<close>

theorem prnewswire_drops_length_12:
  "length (normalize_whitespace ''Acme buys XY'') = 12
   \<and> str_in ''/news-releases/'' ''/news-releases/acme-deal.html''
   \<and> endswith ''/news-releases/acme-deal.html'' ''.html''
   \<and> fetch_prnewswire [(''/news-releases/acme-deal.html'', ''Acme buys XY'')] = []
   \<and> fetch_businesswire [(''/news/home/acme-deal'', ''Acme buys XY'')]
       = [new_item ''BusinessWire'' ''Acme buys XY''
            ''https://www.businesswire.com/news/home/acme-deal'' None None]"
  by code_simp

lemma dedupe_loop_subset: "set (dedupe_loop xs seen []) \<subseteq> set xs"
proof
  fix it
  assume "it \<in> set (dedupe_loop xs seen [])"
  then have "find (\<lambda>x. url x = url it) xs = Some it" by (rule dedupe_loop_find)
  then show "it \<in> set xs" by (auto simp: find_Some_iff)
qed

lemma html_items_snippet:
  assumes "x \<in> set (fetch_businesswire anchors) \<union> set (fetch_prnewswire anchors)"
  shows "snippet x = None"
proof -
  from assms have "x \<in> set (businesswire_links anchors []) \<union> set (prnewswire_links anchors [])"
    using dedupe_loop_subset
    by (auto simp: fetch_businesswire_def fetch_prnewswire_def dest!: in_set_takeD)
  then show ?thesis
    by (auto simp: businesswire_links_eq prnewswire_links_eq businesswire_item_def
        prnewswire_item_def new_item_def)
qed

section \<open>Properties of the text handed to the matcher\<close>

lemma matched_keywords:
  "fst (match_keywords text keywords) = filter (\<lambda>kw. str_in (lower kw) (lower text)) keywords"
  by (simp add: match_keywords_def match_loop_eq)

text \<open>
  C10: the HTML adapters give every item the snippet \<open>None\<close>. For an item whose snippet is
  \<open>None\<close> the text handed to the matcher is the title, a blank and \<open>None\<close>, so a configured
  keyword that occurs in "none" without regard to case is matched for every such item.
\<close>

theorem none_snippet_text_matches:
  "(\<forall>x \<in> set (fetch_businesswire anchors) \<union> set (fetch_prnewswire anchors). snippet x = None)
   \<and> (snippet it = None \<longrightarrow>
        item_text it = title it @ '' None''
        \<and> (\<forall>kw \<in> set keywords. str_in (lower kw) ''none''
              \<longrightarrow> kw \<in> set (fst (match_keywords (item_text it) keywords))))"
proof (intro conjI ballI impI)
  fix x
  assume "x \<in> set (fetch_businesswire anchors) \<union> set (fetch_prnewswire anchors)"
  then show "snippet x = None" by (rule html_items_snippet)
next
  assume "snippet it = None"
  then show "item_text it = title it @ '' None''" by (simp add: item_text_def)
next
  fix kw
  assume none: "snippet it = None" and kw: "kw \<in> set keywords"
    and sub: "str_in (lower kw) ''none''"
  from sub obtain a b where ab: "''none'' = a @ lower kw @ b"
    unfolding str_in_iff by blast
  have "lower '' None'' = '' '' @ ''none''"
    by code_simp
  with none have "lower (item_text it) = (lower (title it) @ '' '' @ a) @ lower kw @ b"
    by (simp add: item_text_def lower_append ab)
  then have "str_in (lower kw) (lower (item_text it))"
    unfolding str_in_iff by blast
  with kw show "kw \<in> set (fst (match_keywords (item_text it) keywords))"
    by (simp add: matched_keywords)
qed

theorem none_snippet_text_matches_witness:
  "snippet acme_item = None
   \<and> item_text acme_item = ''Acme to acquire Widget Co None''
   \<and> ''NONE'' \<in> set (fst (match_keywords (item_text acme_item) [''merger'', ''NONE'']))"
proof -
  have s: "snippet acme_item = None" by (simp add: acme_item_def new_item_def)
  have t: "title acme_item = ''Acme to acquire Widget Co''"
    by (simp add: acme_item_def new_item_def)
  have k: "''NONE'' \<in> set [''merger'', ''NONE'']" by simp
  have l: "str_in (lower ''NONE'') ''none''" by code_simp
  from none_snippet_text_matches [of "[]" acme_item "[''merger'', ''NONE'']"] s k l
  have a: "item_text acme_item = title acme_item @ '' None''"
    and b: "''NONE'' \<in> set (fst (match_keywords (item_text acme_item) [''merger'', ''NONE'']))"
    by blast+
  show ?thesis
  proof (intro conjI)
    show "snippet acme_item = None" by (rule s)
    show "item_text acme_item = ''Acme to acquire Widget Co None''" using a t by simp
    show "''NONE'' \<in> set (fst (match_keywords (item_text acme_item) [''merger'', ''NONE'']))"
      by (rule b)
  qed
qed

section \<open>Properties of the JSON feed adapter\<close>

lemma normalize_whitespace_Nil: "normalize_whitespace [] = []"
  by (simp add: normalize_whitespace_def strip_def)

lemma normalize_whitespace_value_text:
  "is_text v \<Longrightarrow>
     normalize_whitespace_value v
       = Inr (case v of JStr s \<Rightarrow> normalize_whitespace s | _ \<Rightarrow> [])"
  by (cases v) (auto simp: is_text_def normalize_whitespace_value_def normalize_whitespace_Nil)

lemma entry_skipped:
  assumes "normalize_whitespace_value (entry_title kvs) = Inr t"
    and "t = [] \<or> \<not> truthy (entry_link kvs)"
  shows "entry_item dtparse py_str (JObj kvs) = Inr None"
  using assms by (auto simp: entry_item_def Let_def)

lemma entry_title_missing:
  assumes "\<not> truthy (dict_get kvs ''Title'')" and "\<not> truthy (dict_get kvs ''title'')"
  shows "normalize_whitespace_value (entry_title kvs) = Inr []"
proof -
  from assms have "entry_title kvs = JStr []" by (simp add: entry_title_def py_or_def)
  then show ?thesis by (simp add: normalize_whitespace_value_def normalize_whitespace_Nil)
qed

lemma entry_title_text:
  assumes "is_text (dict_get kvs ''Title'')" and "is_text (dict_get kvs ''title'')"
  shows "\<exists>t. normalize_whitespace_value (entry_title kvs) = Inr t"
proof -
  from assms have "is_text (entry_title kvs)"
    by (simp add: entry_title_def py_or_def is_text_def)
  then show ?thesis by (simp add: normalize_whitespace_value_text)
qed

lemma entry_link_missing:
  assumes "\<not> truthy (dict_get kvs ''Url'')" and "\<not> truthy (dict_get kvs ''url'')"
    and "\<not> truthy (dict_get kvs ''Link'')" and "\<not> truthy (dict_get kvs ''link'')"
  shows "\<not> truthy (entry_link kvs)"
  using assms by (simp add: entry_link_def py_or_def)

lemma entry_date_recovered:
  assumes "entry_title kvs = JStr ts" and "normalize_whitespace ts \<noteq> []"
    and "truthy (entry_link kvs)"
    and "dtparse (entry_published kvs) = None"
    and "normalize_whitespace_value (entry_teaser kvs) = Inr sn"
  shows "entry_item dtparse py_str (JObj kvs)
     = Inr (Some (new_item ''GlobeNewswire'' (normalize_whitespace ts)
                    (case entry_link kvs of
                       JStr s \<Rightarrow> absolute ''https://www.globenewswire.com'' s
                     | v \<Rightarrow> ''https://www.globenewswire.com'' @ py_str v)
                    None (if sn = [] then None else Some sn)))"
proof -
  from assms(1,2) have "ts \<noteq> []" by (auto simp: normalize_whitespace_Nil)
  with assms(1) have "normalize_whitespace_value (entry_title kvs) = Inr (normalize_whitespace ts)"
    by (simp add: normalize_whitespace_value_def)
  with assms show ?thesis by (simp add: entry_item_def Let_def)
qed

lemma globenewswire_entries_acc:
  "globenewswire_entries dtparse py_str xs items =
     (case globenewswire_entries dtparse py_str xs [] of
        Inl e \<Rightarrow> Inl e | Inr r \<Rightarrow> Inr (items @ r))"
proof (induction xs arbitrary: items)
  case Nil
  show ?case by simp
next
  case (Cons x xs)
  show ?case
  proof (cases "entry_item dtparse py_str x")
    case (Inl e)
    then show ?thesis by simp
  next
    case (Inr opt)
    show ?thesis
    proof (cases opt)
      case None
      with Inr Cons.IH [of items] show ?thesis by simp
    next
      case (Some y)
      with Inr Cons.IH [of "items @ [y]"] Cons.IH [of "[y]"] show ?thesis
        by (simp split: sum.splits)
    qed
  qed
qed

lemma globenewswire_entries_append:
  "globenewswire_entries dtparse py_str (xs @ ys) items =
     (case globenewswire_entries dtparse py_str xs items of
        Inl e \<Rightarrow> Inl e | Inr r \<Rightarrow> globenewswire_entries dtparse py_str ys r)"
  by (induction xs arbitrary: items) (auto split: sum.splits option.splits)

lemma fetch_globenewswire_json_JArr:
  "fetch_globenewswire_json dtparse py_str (JArr xs) =
     (case globenewswire_entries dtparse py_str xs [] of
        Inl e \<Rightarrow> Inl e | Inr items \<Rightarrow> Inr (take 60 items))"
  by (cases xs) (simp_all add: fetch_globenewswire_json_def)

lemma fetch_skips_entry:
  assumes "entry_item dtparse py_str e = Inr None"
  shows "fetch_globenewswire_json dtparse py_str (JArr (pre @ e # post))
     = fetch_globenewswire_json dtparse py_str (JArr (pre @ post))"
  using assms
  by (simp add: fetch_globenewswire_json_JArr globenewswire_entries_append split: sum.splits)

lemma fetch_keeps_entry:
  assumes "entry_item dtparse py_str e = Inr (Some x)"
    and "globenewswire_entries dtparse py_str pre [] = Inr before"
    and "globenewswire_entries dtparse py_str post [] = Inr after"
  shows "fetch_globenewswire_json dtparse py_str (JArr (pre @ e # post))
     = Inr (take 60 (before @ x # after))"
proof -
  have "globenewswire_entries dtparse py_str (e # post) before
      = globenewswire_entries dtparse py_str post (before @ [x])"
    using assms(1) by simp
  also have "\<dots> = Inr ((before @ [x]) @ after)"
    using assms(3) by (simp add: globenewswire_entries_acc [of _ _ post "before @ [x]"])
  finally show ?thesis
    using assms(2)
    by (simp add: fetch_globenewswire_json_JArr globenewswire_entries_append)
qed

text \<open>
  C8, as the code has it, for an entry that is a JSON object. If it has no title (no true
  value under \<open>Title\<close> or \<open>title\<close>, or a string that is blank after normalization), or if its
  title is a string or absent and it has no link (no true value under \<open>Url\<close>, \<open>url\<close>,
  \<open>Link\<close>, \<open>link\<close>), the adapter returns what it returns for the feed without the entry.
  If it has a string title that is not blank, a link, a publish date on which the parser
  raises and a teaser that is a string or absent, and the entries before and after it
  produce the items \<open>before\<close> and \<open>after\<close>, the adapter returns the first 60 of \<open>before\<close>, the
  entry's item with \<open>published_at = None\<close>, and \<open>after\<close>.
\<close>

theorem json_entry_skip_and_date_recovery:
  "(\<not> truthy (dict_get kvs ''Title'') \<and> \<not> truthy (dict_get kvs ''title'')
      \<longrightarrow> fetch_globenewswire_json dtparse py_str (JArr (pre @ JObj kvs # post))
          = fetch_globenewswire_json dtparse py_str (JArr (pre @ post)))
   \<and> (entry_title kvs = JStr ts \<and> normalize_whitespace ts = []
      \<longrightarrow> fetch_globenewswire_json dtparse py_str (JArr (pre @ JObj kvs # post))
          = fetch_globenewswire_json dtparse py_str (JArr (pre @ post)))
   \<and> (is_text (dict_get kvs ''Title'') \<and> is_text (dict_get kvs ''title'')
       \<and> \<not> truthy (dict_get kvs ''Url'') \<and> \<not> truthy (dict_get kvs ''url'')
       \<and> \<not> truthy (dict_get kvs ''Link'') \<and> \<not> truthy (dict_get kvs ''link'')
      \<longrightarrow> fetch_globenewswire_json dtparse py_str (JArr (pre @ JObj kvs # post))
          = fetch_globenewswire_json dtparse py_str (JArr (pre @ post)))
   \<and> (entry_title kvs = JStr ts \<and> normalize_whitespace ts \<noteq> []
       \<and> truthy (entry_link kvs) \<and> truthy (entry_published kvs)
       \<and> dtparse (entry_published kvs) = None
       \<and> normalize_whitespace_value (entry_teaser kvs) = Inr sn
       \<and> globenewswire_entries dtparse py_str pre [] = Inr before
       \<and> globenewswire_entries dtparse py_str post [] = Inr after
      \<longrightarrow> fetch_globenewswire_json dtparse py_str (JArr (pre @ JObj kvs # post))
          = Inr (take 60
                   (before
                    @ new_item ''GlobeNewswire'' (normalize_whitespace ts)
                        (case entry_link kvs of
                           JStr s \<Rightarrow> absolute ''https://www.globenewswire.com'' s
                         | v \<Rightarrow> ''https://www.globenewswire.com'' @ py_str v)
                        None (if sn = [] then None else Some sn)
                    # after)))"
proof (intro conjI impI)
  assume "\<not> truthy (dict_get kvs ''Title'') \<and> \<not> truthy (dict_get kvs ''title'')"
  then have "normalize_whitespace_value (entry_title kvs) = Inr []"
    by (simp add: entry_title_missing)
  then have "entry_item dtparse py_str (JObj kvs) = Inr None"
    by (rule entry_skipped) simp
  then show "fetch_globenewswire_json dtparse py_str (JArr (pre @ JObj kvs # post))
          = fetch_globenewswire_json dtparse py_str (JArr (pre @ post))"
    by (rule fetch_skips_entry)
next
  assume "entry_title kvs = JStr ts \<and> normalize_whitespace ts = []"
  then have "normalize_whitespace_value (entry_title kvs) = Inr []"
    by (auto simp: normalize_whitespace_value_def)
  then have "entry_item dtparse py_str (JObj kvs) = Inr None"
    by (rule entry_skipped) simp
  then show "fetch_globenewswire_json dtparse py_str (JArr (pre @ JObj kvs # post))
          = fetch_globenewswire_json dtparse py_str (JArr (pre @ post))"
    by (rule fetch_skips_entry)
next
  assume a: "is_text (dict_get kvs ''Title'') \<and> is_text (dict_get kvs ''title'')
       \<and> \<not> truthy (dict_get kvs ''Url'') \<and> \<not> truthy (dict_get kvs ''url'')
       \<and> \<not> truthy (dict_get kvs ''Link'') \<and> \<not> truthy (dict_get kvs ''link'')"
  then obtain t where "normalize_whitespace_value (entry_title kvs) = Inr t"
    using entry_title_text by blast
  moreover from a have "\<not> truthy (entry_link kvs)" by (simp add: entry_link_missing)
  ultimately have "entry_item dtparse py_str (JObj kvs) = Inr None"
    by (simp add: entry_skipped)
  then show "fetch_globenewswire_json dtparse py_str (JArr (pre @ JObj kvs # post))
          = fetch_globenewswire_json dtparse py_str (JArr (pre @ post))"
    by (rule fetch_skips_entry)
next
  assume a: "entry_title kvs = JStr ts \<and> normalize_whitespace ts \<noteq> []
       \<and> truthy (entry_link kvs) \<and> truthy (entry_published kvs)
       \<and> dtparse (entry_published kvs) = None
       \<and> normalize_whitespace_value (entry_teaser kvs) = Inr sn
       \<and> globenewswire_entries dtparse py_str pre [] = Inr before
       \<and> globenewswire_entries dtparse py_str post [] = Inr after"
  then have "entry_item dtparse py_str (JObj kvs)
     = Inr (Some (new_item ''GlobeNewswire'' (normalize_whitespace ts)
                    (case entry_link kvs of
                       JStr s \<Rightarrow> absolute ''https://www.globenewswire.com'' s
                     | v \<Rightarrow> ''https://www.globenewswire.com'' @ py_str v)
                    None (if sn = [] then None else Some sn)))"
    by (simp add: entry_date_recovered)
  with a show "fetch_globenewswire_json dtparse py_str (JArr (pre @ JObj kvs # post))
          = Inr (take 60
                   (before
                    @ new_item ''GlobeNewswire'' (normalize_whitespace ts)
                        (case entry_link kvs of
                           JStr s \<Rightarrow> absolute ''https://www.globenewswire.com'' s
                         | v \<Rightarrow> ''https://www.globenewswire.com'' @ py_str v)
                        None (if sn = [] then None else Some sn)
                    # after))"
    by (simp add: fetch_keeps_entry)
qed

theorem json_entry_skip_and_date_recovery_witness:
  "fetch_globenewswire_json dtparse_fails py_str_scalar
       (JArr ([acme_entry]
              @ JObj [(''Url'', JStr ''/r/7''), (''Teaser'', JStr ''No headline'')]
              # [acme_entry]))
     = Inr [new_item ''GlobeNewswire'' ''Acme to acquire Widget Co''
              ''https://www.globenewswire.com/r/1'' None None,
            new_item ''GlobeNewswire'' ''Acme to acquire Widget Co''
              ''https://www.globenewswire.com/r/1'' None None]
   \<and> fetch_globenewswire_json dtparse_fails py_str_scalar
       (JArr ([] @ JObj [(''Title'', JStr [CHR 0xA0, CHR '' '']), (''Url'', JStr ''/r/8'')]
              # [acme_entry]))
     = Inr [new_item ''GlobeNewswire'' ''Acme to acquire Widget Co''
              ''https://www.globenewswire.com/r/1'' None None]
   \<and> fetch_globenewswire_json dtparse_fails py_str_scalar
       (JArr ([] @ JObj [(''title'', JStr ''Initech results''), (''link'', JNull)]
              # [acme_entry]))
     = Inr [new_item ''GlobeNewswire'' ''Acme to acquire Widget Co''
              ''https://www.globenewswire.com/r/1'' None None]
   \<and> fetch_globenewswire_json dtparse_fails py_str_scalar
       (JArr ([acme_entry]
              @ JObj [(''title'', JStr '' Globex  merger closes''), (''Link'', JStr ''/r/2''),
                      (''PubDate'', JStr ''the day after tomorrow''),
                      (''summary'', JStr ''Done.'')]
              # [acme_entry]))
     = Inr [new_item ''GlobeNewswire'' ''Acme to acquire Widget Co''
              ''https://www.globenewswire.com/r/1'' None None,
            new_item ''GlobeNewswire'' ''Globex merger closes''
              ''https://www.globenewswire.com/r/2'' None (Some ''Done.''),
            new_item ''GlobeNewswire'' ''Acme to acquire Widget Co''
              ''https://www.globenewswire.com/r/1'' None None]"
proof (intro conjI)
  let ?A = "new_item ''GlobeNewswire'' ''Acme to acquire Widget Co''
              ''https://www.globenewswire.com/r/1'' None None"
  have one: "fetch_globenewswire_json dtparse_fails py_str_scalar (JArr ([] @ [acme_entry]))
      = Inr [?A]"
    by code_simp
  have two: "fetch_globenewswire_json dtparse_fails py_str_scalar
        (JArr ([acme_entry] @ [acme_entry])) = Inr [?A, ?A]"
    by code_simp
  have ent: "globenewswire_entries dtparse_fails py_str_scalar [acme_entry] [] = Inr [?A]"
    by code_simp
  {
    let ?u = "[(''Url'', JStr ''/r/7''), (''Teaser'', JStr ''No headline'')]"
    have "\<not> truthy (dict_get ?u ''Title'') \<and> \<not> truthy (dict_get ?u ''title'')"
      by (simp add: dict_get_def)
    with json_entry_skip_and_date_recovery
      [where kvs = ?u and dtparse = dtparse_fails and py_str = py_str_scalar
         and pre = "[acme_entry]" and post = "[acme_entry]"]
    have "fetch_globenewswire_json dtparse_fails py_str_scalar
            (JArr ([acme_entry] @ JObj ?u # [acme_entry]))
          = fetch_globenewswire_json dtparse_fails py_str_scalar
              (JArr ([acme_entry] @ [acme_entry]))"
      by blast
    with two show "fetch_globenewswire_json dtparse_fails py_str_scalar
            (JArr ([acme_entry] @ JObj ?u # [acme_entry])) = Inr [?A, ?A]"
      by simp
  }
  {
    let ?b = "[(''Title'', JStr [CHR 0xA0, CHR '' '']), (''Url'', JStr ''/r/8'')]"
    have "entry_title ?b = JStr [CHR 0xA0, CHR '' ''] \<and> normalize_whitespace [CHR 0xA0, CHR '' ''] = []"
      by code_simp
    with json_entry_skip_and_date_recovery
      [where kvs = ?b and ts = "[CHR 0xA0, CHR '' '']" and dtparse = dtparse_fails
         and py_str = py_str_scalar and pre = "[]" and post = "[acme_entry]"]
    have "fetch_globenewswire_json dtparse_fails py_str_scalar
            (JArr ([] @ JObj ?b # [acme_entry]))
          = fetch_globenewswire_json dtparse_fails py_str_scalar (JArr ([] @ [acme_entry]))"
      by blast
    with one show "fetch_globenewswire_json dtparse_fails py_str_scalar
            (JArr ([] @ JObj ?b # [acme_entry])) = Inr [?A]"
      by simp
  }
  {
    let ?l = "[(''title'', JStr ''Initech results''), (''link'', JNull)]"
    have "is_text (dict_get ?l ''Title'') \<and> is_text (dict_get ?l ''title'')
       \<and> \<not> truthy (dict_get ?l ''Url'') \<and> \<not> truthy (dict_get ?l ''url'')
       \<and> \<not> truthy (dict_get ?l ''Link'') \<and> \<not> truthy (dict_get ?l ''link'')"
      by (simp add: dict_get_def is_text_def)
    with json_entry_skip_and_date_recovery
      [where kvs = ?l and dtparse = dtparse_fails and py_str = py_str_scalar
         and pre = "[]" and post = "[acme_entry]"]
    have "fetch_globenewswire_json dtparse_fails py_str_scalar
            (JArr ([] @ JObj ?l # [acme_entry]))
          = fetch_globenewswire_json dtparse_fails py_str_scalar (JArr ([] @ [acme_entry]))"
      by blast
    with one show "fetch_globenewswire_json dtparse_fails py_str_scalar
            (JArr ([] @ JObj ?l # [acme_entry])) = Inr [?A]"
      by simp
  }
  {
    let ?m = "[(''title'', JStr '' Globex  merger closes''), (''Link'', JStr ''/r/2''),
               (''PubDate'', JStr ''the day after tomorrow''), (''summary'', JStr ''Done.'')]"
    have h: "entry_title ?m = JStr '' Globex  merger closes''
        \<and> normalize_whitespace '' Globex  merger closes'' \<noteq> []
        \<and> truthy (entry_link ?m) \<and> truthy (entry_published ?m)
        \<and> dtparse_fails (entry_published ?m) = None
        \<and> normalize_whitespace_value (entry_teaser ?m) = Inr ''Done.''"
      by code_simp
    have v: "normalize_whitespace '' Globex  merger closes'' = ''Globex merger closes''
        \<and> entry_link ?m = JStr ''/r/2''
        \<and> absolute ''https://www.globenewswire.com'' ''/r/2''
            = ''https://www.globenewswire.com/r/2''"
      by code_simp
    from h ent json_entry_skip_and_date_recovery
      [where kvs = ?m and ts = "'' Globex  merger closes''" and sn = "''Done.''"
         and dtparse = dtparse_fails and py_str = py_str_scalar
         and pre = "[acme_entry]" and post = "[acme_entry]"
         and before = "[?A]" and after = "[?A]"]
    have "fetch_globenewswire_json dtparse_fails py_str_scalar
            (JArr ([acme_entry] @ JObj ?m # [acme_entry]))
          = Inr (take 60
                   ([?A]
                    @ new_item ''GlobeNewswire'' (normalize_whitespace '' Globex  merger closes'')
                        (case entry_link ?m of
                           JStr s \<Rightarrow> absolute ''https://www.globenewswire.com'' s
                         | v \<Rightarrow> ''https://www.globenewswire.com'' @ py_str_scalar v)
                        None (if ''Done.'' = [] then None else Some ''Done.'')
                    # [?A]))"
      by blast
    with v show "fetch_globenewswire_json dtparse_fails py_str_scalar
            (JArr ([acme_entry] @ JObj ?m # [acme_entry]))
          = Inr [?A,
                 new_item ''GlobeNewswire'' ''Globex merger closes''
                   ''https://www.globenewswire.com/r/2'' None (Some ''Done.''),
                 ?A]"
      by simp
  }
qed

text \<open>
  An entry without a link whose title is a number, and an entry that is \<open>null\<close>: the first
  raises \<open>TypeError\<close> when its title is normalized, the second \<open>AttributeError\<close> at its first
  lookup. Neither is skipped; the adapter ends with the exception and the entry after it,
  which alone would give an item, is never reached.
\<close>

theorem json_entry_type_error_counterexample:
  "\<not> truthy (entry_link [(''Title'', JInt 123)])
   \<and> fetch_globenewswire_json dtparse_fails py_str_scalar
        (JArr [JObj [(''Title'', JInt 123)], acme_entry]) = Inl TypeError
   \<and> fetch_globenewswire_json dtparse_fails py_str_scalar (JArr [JNull, acme_entry])
       = Inl AttributeError
   \<and> fetch_globenewswire_json dtparse_fails py_str_scalar (JArr [acme_entry])
       = Inr [new_item ''GlobeNewswire'' ''Acme to acquire Widget Co''
                ''https://www.globenewswire.com/r/1'' None None]"
  by code_simp

section \<open>Properties of the orchestrator\<close>

lemma main_loop_Cons:
  "main_loop keywords clock k (it # its) conn new_hits =
     (if fst (match_keywords (item_text it) keywords) = []
      then main_loop keywords clock (Suc k) its conn new_hits
      else if url it \<in> set (map col_url conn)
      then main_loop keywords clock (Suc k) its conn new_hits
      else main_loop keywords clock (Suc k) its
             (conn @ [item_row (clock k) (annotate keywords it)])
             (new_hits @ [annotate keywords it]))"
  by (cases "match_keywords (item_text it) keywords")
    (simp add: upsert_new_eq annotate_def)

lemma main_loop_result:
  "\<exists>new ts. main_loop keywords clock k items conn new_hits
               = Inr (conn @ map2 item_row ts new, new_hits @ new)
     \<and> length ts = length new
     \<and> (\<forall>h \<in> set new. \<exists>it \<in> set items.
            fst (match_keywords (item_text it) keywords) \<noteq> [] \<and> h = annotate keywords it)
     \<and> (\<forall>it \<in> set items. fst (match_keywords (item_text it) keywords) \<noteq> []
            \<longrightarrow> url it \<in> set (map col_url (conn @ map2 item_row ts new)))"
proof (induction items arbitrary: k conn new_hits)
  case Nil
  have "main_loop keywords clock k [] conn new_hits
          = Inr (conn @ map2 item_row [] [], new_hits @ [])"
    by simp
  then show ?case by (intro exI [of _ "[]"]) simp
next
  case (Cons it its)
  let ?m = "fst (match_keywords (item_text it) keywords)"
  let ?h = "annotate keywords it"
  let ?r = "item_row (clock k) ?h"
  have urow: "col_url ?r = url it" by (simp add: item_row_def annotate_def)
  show ?case
  proof (cases "?m = [] \<or> url it \<in> set (map col_url conn)")
    case True
    from Cons.IH [of "Suc k" conn new_hits] obtain new ts where
      r: "main_loop keywords clock (Suc k) its conn new_hits
            = Inr (conn @ map2 item_row ts new, new_hits @ new)"
      and l: "length ts = length new"
      and h: "\<forall>h \<in> set new. \<exists>it \<in> set its.
                fst (match_keywords (item_text it) keywords) \<noteq> [] \<and> h = annotate keywords it"
      and s: "\<forall>it \<in> set its. fst (match_keywords (item_text it) keywords) \<noteq> []
                \<longrightarrow> url it \<in> set (map col_url (conn @ map2 item_row ts new))"
      by blast
    from True r have "main_loop keywords clock k (it # its) conn new_hits
            = Inr (conn @ map2 item_row ts new, new_hits @ new)"
      by (auto simp: main_loop_Cons simp del: main_loop.simps)
    moreover from h have "\<forall>h \<in> set new. \<exists>i \<in> set (it # its).
                fst (match_keywords (item_text i) keywords) \<noteq> [] \<and> h = annotate keywords i"
      by auto
    moreover from s True have "\<forall>i \<in> set (it # its).
        fst (match_keywords (item_text i) keywords) \<noteq> []
          \<longrightarrow> url i \<in> set (map col_url (conn @ map2 item_row ts new))"
      by auto
    ultimately show ?thesis using l by blast
  next
    case False
    from Cons.IH [of "Suc k" "conn @ [?r]" "new_hits @ [?h]"] obtain new ts where
      r: "main_loop keywords clock (Suc k) its (conn @ [?r]) (new_hits @ [?h])
            = Inr ((conn @ [?r]) @ map2 item_row ts new, (new_hits @ [?h]) @ new)"
      and l: "length ts = length new"
      and h: "\<forall>h \<in> set new. \<exists>it \<in> set its.
                fst (match_keywords (item_text it) keywords) \<noteq> [] \<and> h = annotate keywords it"
      and s: "\<forall>it \<in> set its. fst (match_keywords (item_text it) keywords) \<noteq> []
                \<longrightarrow> url it \<in> set (map col_url ((conn @ [?r]) @ map2 item_row ts new))"
      by blast
    from False r have "main_loop keywords clock k (it # its) conn new_hits
            = Inr (conn @ map2 item_row (clock k # ts) (?h # new), new_hits @ (?h # new))"
      by (simp add: main_loop_Cons del: main_loop.simps)
    moreover from l have "length (clock k # ts) = length (?h # new)" by simp
    moreover from h False have "\<forall>h \<in> set (?h # new). \<exists>i \<in> set (it # its).
                fst (match_keywords (item_text i) keywords) \<noteq> [] \<and> h = annotate keywords i"
      by auto
    moreover from s urow have "\<forall>i \<in> set (it # its).
        fst (match_keywords (item_text i) keywords) \<noteq> []
          \<longrightarrow> url i \<in> set (map col_url (conn @ map2 item_row (clock k # ts) (?h # new)))"
      by auto
    ultimately show ?thesis by blast
  qed
qed

text \<open>
  C6: the loop of \<open>main\<close> always ends with a table and a list of new hits. An item for which
  the matcher returns no keyword is skipped: it changes neither the table nor the new hits.
  Every new hit, and so every item the digest renders, is an item of the run annotated with
  a matched list that is not empty, and every row the run adds to the table is the row of
  such a hit. Conversely every item with a match is on record in the table afterwards.
\<close>

theorem unmatched_items_never_stored:
  "(fst (match_keywords (item_text it) keywords) = []
      \<longrightarrow> main_loop keywords clock k (it # its) conn new_hits
           = main_loop keywords clock (Suc k) its conn new_hits)
   \<and> (\<exists>hits ts. main_loop keywords clock k items conn [] = Inr (conn @ map2 item_row ts hits, hits)
         \<and> length ts = length hits
         \<and> (\<forall>h \<in> set hits. \<exists>m. matched h = Some m \<and> m \<noteq> []
               \<and> (\<exists>i \<in> set items. m = fst (match_keywords (item_text i) keywords)
                      \<and> h = annotate keywords i))
         \<and> (\<forall>i \<in> set items. fst (match_keywords (item_text i) keywords) \<noteq> []
               \<longrightarrow> url i \<in> set (map col_url (conn @ map2 item_row ts hits))))"
proof (intro conjI impI)
  assume "fst (match_keywords (item_text it) keywords) = []"
  then show "main_loop keywords clock k (it # its) conn new_hits
           = main_loop keywords clock (Suc k) its conn new_hits"
    by (simp add: main_loop_Cons del: main_loop.simps)
next
  from main_loop_result [of "keywords" clock k items conn "[]"] obtain new ts where
    r: "main_loop keywords clock k items conn [] = Inr (conn @ map2 item_row ts new, new)"
    and l: "length ts = length new"
    and h: "\<forall>h \<in> set new. \<exists>it \<in> set items.
              fst (match_keywords (item_text it) keywords) \<noteq> [] \<and> h = annotate keywords it"
    and s: "\<forall>it \<in> set items. fst (match_keywords (item_text it) keywords) \<noteq> []
              \<longrightarrow> url it \<in> set (map col_url (conn @ map2 item_row ts new))"
    by auto
  have "\<forall>h \<in> set new. \<exists>m. matched h = Some m \<and> m \<noteq> []
               \<and> (\<exists>i \<in> set items. m = fst (match_keywords (item_text i) keywords)
                      \<and> h = annotate keywords i)"
  proof
    fix x
    assume "x \<in> set new"
    with h obtain i where i: "i \<in> set items"
      "fst (match_keywords (item_text i) keywords) \<noteq> []" "x = annotate keywords i"
      by blast
    then have "matched x = Some (fst (match_keywords (item_text i) keywords))"
      by (simp add: annotate_def)
    with i show "\<exists>m. matched x = Some m \<and> m \<noteq> []
               \<and> (\<exists>i \<in> set items. m = fst (match_keywords (item_text i) keywords)
                      \<and> x = annotate keywords i)"
      by blast
  qed
  with r l s show "\<exists>hits ts. main_loop keywords clock k items conn []
           = Inr (conn @ map2 item_row ts hits, hits)
         \<and> length ts = length hits
         \<and> (\<forall>h \<in> set hits. \<exists>m. matched h = Some m \<and> m \<noteq> []
               \<and> (\<exists>i \<in> set items. m = fst (match_keywords (item_text i) keywords)
                      \<and> h = annotate keywords i))
         \<and> (\<forall>i \<in> set items. fst (match_keywords (item_text i) keywords) \<noteq> []
               \<longrightarrow> url i \<in> set (map col_url (conn @ map2 item_row ts hits)))"
    by blast
qed

theorem unmatched_items_never_stored_witness:
  "fst (match_keywords (item_text quiet_item) [''merger'', ''acquire'']) = []
   \<and> main_loop [''merger'', ''acquire''] fixed_clock 0 [quiet_item, acme_item] [] []
       = main_loop [''merger'', ''acquire''] fixed_clock (Suc 0) [acme_item] [] []
   \<and> main_loop [''merger'', ''acquire''] fixed_clock 0 [quiet_item, acme_item] [] []
       = Inr ([item_row ''2024-05-02T08:00:00+00:00''
                 (acme_item\<lparr>matched := Some [''acquire''], score := Some 2\<rparr>)],
              [acme_item\<lparr>matched := Some [''acquire''], score := Some 2\<rparr>])"
proof -
  have q: "fst (match_keywords (item_text quiet_item) [''merger'', ''acquire'']) = []"
    by code_simp
  with unmatched_items_never_stored
    [of quiet_item "[''merger'', ''acquire'']" fixed_clock 0 "[acme_item]" "[]" "[]"]
  have skip: "main_loop [''merger'', ''acquire''] fixed_clock 0 [quiet_item, acme_item] [] []
       = main_loop [''merger'', ''acquire''] fixed_clock (Suc 0) [acme_item] [] []"
    by blast
  have "main_loop [''merger'', ''acquire''] fixed_clock (Suc 0) [acme_item] [] []
       = Inr ([item_row ''2024-05-02T08:00:00+00:00''
                 (acme_item\<lparr>matched := Some [''acquire''], score := Some 2\<rparr>)],
              [acme_item\<lparr>matched := Some [''acquire''], score := Some 2\<rparr>])"
    by code_simp
  with q skip show ?thesis by simp
qed

section \<open>Properties of the digest builder\<close>

text \<open>
  C9: for an empty list of new hits the digest is the date header, an empty line and the
  line "No new keyword matches today.", joined by newlines, and nothing else. The header is
  "Daily M&A Radar", a blank, the three characters that stand for the dash in the source
  file (as the eight bytes of their UTF-8 form), a blank and the date.
\<close>

theorem build_digest_empty:
  "build_digest today [] =
     ''Daily M&A Radar ''
     @ [CHR 0xC3, CHR 0xA2, CHR 0xE2, CHR 0x82, CHR 0xAC, CHR 0xE2, CHR 0x80, CHR 0x9D]
     @ '' '' @ today @ [CHR 0x0A, CHR 0x0A] @ ''No new keyword matches today.''"
  by (simp add: build_digest_def digest_lines_def date_header_def header_dash_def)

lemma render_loop_eq:
  "render_loop xs cur lines =
     lines @ concat (map (\<lambda>(prev, it). section_header prev it @ item_lines it)
                      (zip (cur # map (\<lambda>x. Some (source x)) xs) xs))"
proof (induction xs arbitrary: cur lines)
  case Nil
  show ?case by simp
next
  case (Cons x xs)
  show ?case
  proof (cases "Some (source x) = cur")
    case True
    then have "render_loop (x # xs) cur lines = render_loop xs (Some (source x)) (lines @ item_lines x)"
      by auto
    with True show ?thesis by (simp add: Cons.IH section_header_def)
  next
    case False
    then have "render_loop (x # xs) cur lines
        = render_loop xs (Some (source x))
            (lines @ [[], ''== '' @ source x @ '' ==''] @ item_lines x)"
      by simp
    with False show ?thesis by (auto simp: Cons.IH section_header_def)
  qed
qed

lemma mset_sorted_hits: "mset (sorted_hits xs) = mset xs"
  by (simp add: sorted_hits_def py_sort_reverse_def)

lemma digest_key_eq: "digest_key x = (hit_score x, hit_date x)"
  by (simp add: digest_key_def hit_score_def hit_date_def)

lemma sorted_hits_stable:
  "filter (\<lambda>x. hit_score x = s \<and> hit_date x = d) (sorted_hits xs)
     = filter (\<lambda>x. hit_score x = s \<and> hit_date x = d) xs"
proof -
  have k: "(\<lambda>x. hit_score x = s \<and> hit_date x = d) = (\<lambda>x. digest_key x = (s, d))"
    by (auto simp: digest_key_eq)
  have "filter (\<lambda>x. digest_key x = (s, d)) (sorted_hits xs)
      = rev (filter (\<lambda>x. digest_key x = (s, d)) (sort_key digest_key (rev xs)))"
    by (simp add: sorted_hits_def py_sort_reverse_def rev_filter)
  also have "\<dots> = rev (filter (\<lambda>x. digest_key x = (s, d)) (rev xs))"
    by (simp add: sort_key_stable)
  finally show ?thesis unfolding k by (simp add: rev_filter)
qed

lemma sorted_hits_descending:
  assumes "i < j" and "j < length (sorted_hits xs)"
  shows "hit_score (sorted_hits xs ! j) < hit_score (sorted_hits xs ! i)
     \<or> hit_score (sorted_hits xs ! j) = hit_score (sorted_hits xs ! i)
       \<and> hit_date (sorted_hits xs ! j) \<le> hit_date (sorted_hits xs ! i)"
proof -
  let ?s = "sort_key digest_key (rev xs)"
  have len: "length (sorted_hits xs) = length ?s"
    by (simp add: sorted_hits_def py_sort_reverse_def)
  have srt: "sorted (map digest_key ?s)" by (rule sorted_sort_key)
  from assms len have i: "sorted_hits xs ! i = ?s ! (length ?s - Suc i)"
    and j: "sorted_hits xs ! j = ?s ! (length ?s - Suc j)"
    by (simp_all add: sorted_hits_def py_sort_reverse_def rev_nth)
  from assms len have "length ?s - Suc j \<le> length ?s - Suc i"
    and "length ?s - Suc i < length (map digest_key ?s)"
    by simp_all
  with srt have "map digest_key ?s ! (length ?s - Suc j) \<le> map digest_key ?s ! (length ?s - Suc i)"
    by (rule sorted_nth_mono)
  with assms len have "digest_key (sorted_hits xs ! j) \<le> digest_key (sorted_hits xs ! i)"
    by (simp add: i j)
  then show ?thesis by (auto simp: digest_key_eq less_eq_prod_def)
qed

text \<open>
  C5: for a list of new hits that is not empty, the digest is the date header, an empty
  line and the lines of the sorted hits. The sorted hits are the new hits rearranged so
  that of any two the earlier has the greater score, or the same score and a publish
  string (empty when the item has none) that is not smaller; hits with equal score and
  publish string keep their order. So within a score an item without a date never
  precedes one with a date. In the rendering an item is preceded by the header of its
  source exactly when its source is not that of the item rendered before it (the first
  item always has one).
\<close>

theorem build_digest_sorted_sections:
  assumes "new_hits \<noteq> []"
  shows "digest_lines today new_hits
         = [''Daily M&A Radar ''
            @ [CHR 0xC3, CHR 0xA2, CHR 0xE2, CHR 0x82, CHR 0xAC, CHR 0xE2, CHR 0x80, CHR 0x9D]
            @ '' '' @ today, []] @ rendered (sorted_hits new_hits)
     \<and> build_digest today new_hits = join [CHR 0x0A] (digest_lines today new_hits)
     \<and> mset (sorted_hits new_hits) = mset new_hits
     \<and> (\<forall>s d. filter (\<lambda>x. hit_score x = s \<and> hit_date x = d) (sorted_hits new_hits)
              = filter (\<lambda>x. hit_score x = s \<and> hit_date x = d) new_hits)
     \<and> (\<forall>i j. i < j \<and> j < length (sorted_hits new_hits) \<longrightarrow>
           hit_score (sorted_hits new_hits ! j) < hit_score (sorted_hits new_hits ! i)
           \<or> hit_score (sorted_hits new_hits ! j) = hit_score (sorted_hits new_hits ! i)
             \<and> hit_date (sorted_hits new_hits ! j) \<le> hit_date (sorted_hits new_hits ! i))
     \<and> (\<forall>i j. i < j \<and> j < length (sorted_hits new_hits)
           \<and> hit_score (sorted_hits new_hits ! i) = hit_score (sorted_hits new_hits ! j)
           \<and> published_at (sorted_hits new_hits ! i) = None
          \<longrightarrow> published_at (sorted_hits new_hits ! j) = None
              \<or> published_at (sorted_hits new_hits ! j) = Some [])"
proof -
  let ?hs = "sorted_hits new_hits"
  from assms have lines: "digest_lines today new_hits
         = [''Daily M&A Radar ''
            @ [CHR 0xC3, CHR 0xA2, CHR 0xE2, CHR 0x82, CHR 0xAC, CHR 0xE2, CHR 0x80, CHR 0x9D]
            @ '' '' @ today, []] @ rendered ?hs"
    by (simp add: digest_lines_def render_loop_eq rendered_def date_header_def header_dash_def)
  have undated: "published_at (?hs ! j) = None \<or> published_at (?hs ! j) = Some []"
    if "i < j \<and> j < length ?hs \<and> hit_score (?hs ! i) = hit_score (?hs ! j)
        \<and> published_at (?hs ! i) = None" for i j
  proof -
    from that have "hit_date (?hs ! i) = []" by (simp add: hit_date_def)
    with that sorted_hits_descending [of i j new_hits] have "hit_date (?hs ! j) \<le> []"
      by auto
    then have "hit_date (?hs ! j) = []" by simp
    then show ?thesis by (simp add: hit_date_def split: option.splits)
  qed
  show ?thesis
  proof (intro conjI allI impI)
    show "digest_lines today new_hits
         = [''Daily M&A Radar ''
            @ [CHR 0xC3, CHR 0xA2, CHR 0xE2, CHR 0x82, CHR 0xAC, CHR 0xE2, CHR 0x80, CHR 0x9D]
            @ '' '' @ today, []] @ rendered ?hs"
      by (rule lines)
    show "build_digest today new_hits = join [CHR 0x0A] (digest_lines today new_hits)"
      by (simp add: build_digest_def)
    show "mset ?hs = mset new_hits" by (rule mset_sorted_hits)
    show "filter (\<lambda>x. hit_score x = s \<and> hit_date x = d) ?hs
        = filter (\<lambda>x. hit_score x = s \<and> hit_date x = d) new_hits" for s d
      by (rule sorted_hits_stable)
    show "hit_score (?hs ! j) < hit_score (?hs ! i)
           \<or> hit_score (?hs ! j) = hit_score (?hs ! i) \<and> hit_date (?hs ! j) \<le> hit_date (?hs ! i)"
      if "i < j \<and> j < length ?hs" for i j
      using that by (simp add: sorted_hits_descending)
    show "published_at (?hs ! j) = None \<or> published_at (?hs ! j) = Some []"
      if "i < j \<and> j < length ?hs \<and> hit_score (?hs ! i) = hit_score (?hs ! j)
        \<and> published_at (?hs ! i) = None" for i j
      using that by (rule undated)
  qed
qed

theorem build_digest_sorted_sections_witness:
  "tied_hits \<noteq> []
   \<and> digest_lines ''2024-05-04'' tied_hits =
       [''Daily M&A Radar ''
        @ [CHR 0xC3, CHR 0xA2, CHR 0xE2, CHR 0x82, CHR 0xAC, CHR 0xE2, CHR 0x80, CHR 0x9D]
        @ '' '' @ ''2024-05-04'', [],
        [], ''== A =='',
        ''- Big deal'', ''  https://a.example/4'',
        ''  Matched: definitive agreement (score 5)'',
        [], ''== B =='',
        ''- Newer deal'', ''  https://b.example/3'', ''  Published: 2024-05-03'',
        ''  Matched: takeover (score 2)'', ''  Snippet: Soon.'',
        [], ''== A =='',
        ''- Older deal'', ''  https://a.example/2'', ''  Published: 2024-05-01'',
        ''  Matched: merger (score 2)'',
        ''- Undated deal'', ''  https://a.example/1'',
        ''  Matched: merger (score 2)'']"
proof -
  have ne: "tied_hits \<noteq> []" by (simp add: tied_hits_def)
  have r: "rendered (sorted_hits tied_hits) =
       [[], ''== A =='',
        ''- Big deal'', ''  https://a.example/4'',
        ''  Matched: definitive agreement (score 5)'',
        [], ''== B =='',
        ''- Newer deal'', ''  https://b.example/3'', ''  Published: 2024-05-03'',
        ''  Matched: takeover (score 2)'', ''  Snippet: Soon.'',
        [], ''== A =='',
        ''- Older deal'', ''  https://a.example/2'', ''  Published: 2024-05-01'',
        ''  Matched: merger (score 2)'',
        ''- Undated deal'', ''  https://a.example/1'',
        ''  Matched: merger (score 2)'']"
    by code_simp
  from build_digest_sorted_sections [OF ne, of "''2024-05-04''"] r ne
  show ?thesis by simp
qed

end
